theory Spec2Isabelle
  imports Main
begin

section \<open>Host-language strings and numbers\<close>

text \<open>
  The payment-instruction parser works on JavaScript strings. A string is modelled as a
  list of characters; the model covers ASCII text: white space is the ASCII white space
  (blank, tab, line feed, vertical tab, form feed, carriage return), and letters outside
  ASCII are left alone by \<open>toUpperCase\<close> here. JavaScript numbers are modelled as
  unbounded integers: amounts and balances are integers, and rounding of doubles beyond
  \<open>2^53\<close> is not modelled. \<open>null\<close> and \<open>undefined\<close> are \<open>None\<close>.
\<close>

definition isWhiteSpace :: "char \<Rightarrow> bool" where
  "isWhiteSpace c = (c \<in> set [CHR '' '', CHR 0x09, CHR 0x0A, CHR 0x0B, CHR 0x0C, CHR 0x0D])"

definition isDigit :: "char \<Rightarrow> bool" where
  "isDigit c = ((48::nat) \<le> of_char c \<and> of_char c \<le> (57::nat))"

definition digitVal :: "char \<Rightarrow> nat" where
  "digitVal c = of_char c - 48"

definition toUpperChar :: "char \<Rightarrow> char" where
  "toUpperChar c =
     (if (97::nat) \<le> of_char c \<and> of_char c \<le> (122::nat)
      then char_of (of_char c - (32::nat)) else c)"

definition toUpperCase :: "string \<Rightarrow> string" where
  "toUpperCase s = map toUpperChar s"

text \<open>\<open>s.trim()\<close>: white space removed at both ends.\<close>

definition trim :: "string \<Rightarrow> string" where
  "trim s = rev (dropWhile isWhiteSpace (rev (dropWhile isWhiteSpace s)))"

text \<open>\<open>s.replace(/\s+/g, ' ')\<close>: every maximal run of white space becomes one blank.\<close>

function collapseSpaces :: "string \<Rightarrow> string" where
  "collapseSpaces [] = []"
| "collapseSpaces (c # cs) =
     (if isWhiteSpace c then CHR '' '' # collapseSpaces (dropWhile isWhiteSpace cs)
      else c # collapseSpaces cs)"
  by pat_completeness auto
termination
  by (relation "measure length") (auto simp: length_dropWhile_le less_Suc_eq_le)

text \<open>\<open>s.split(sep)\<close> for a one-character separator; the empty string splits into one
  empty word.\<close>

fun split :: "char \<Rightarrow> string \<Rightarrow> string list" where
  "split sep [] = [[]]"
| "split sep (c # cs) =
     (if c = sep then [] # split sep cs
      else (case split sep cs of
              w # ws \<Rightarrow> (c # w) # ws
            | [] \<Rightarrow> [[c]]))"

text \<open>
  \<open>parseInt(s, 10)\<close>: leading white space is skipped, one sign is read, then the longest
  run of decimal digits; no digit at all is \<open>NaN\<close>, here \<open>None\<close>. Whatever follows the
  digits is ignored, as in the host language.
\<close>

definition digitsValue :: "string \<Rightarrow> nat" where
  "digitsValue z = foldl (\<lambda>a c. 10 * a + digitVal c) 0 z"

definition parseInt :: "string \<Rightarrow> int option" where
  "parseInt s =
     (let s1 = dropWhile isWhiteSpace s;
          sign = (case s1 of c # _ \<Rightarrow> (if c = CHR ''-'' then (-1::int) else 1) | [] \<Rightarrow> 1);
          s2 = (case s1 of c # r \<Rightarrow> (if c = CHR ''-'' \<or> c = CHR ''+'' then r else s1) | [] \<Rightarrow> s1);
          z = takeWhile isDigit s2
      in if z = [] then None else Some (sign * int (digitsValue z)))"

text \<open>Number to string, for the messages that quote a balance or an amount.\<close>

fun natToString :: "nat \<Rightarrow> string" where
  "natToString n =
     (if n < 10 then [char_of (48 + n)]
      else natToString (n div 10) @ [char_of (48 + n mod 10)])"

definition numberToString :: "int \<Rightarrow> string" where
  "numberToString i = (if i < 0 then CHR ''-'' # natToString (nat (- i)) else natToString (nat i))"

section \<open>Constants of the service\<close>

definition SUPPORTED_CURRENCIES :: "string list" where
  "SUPPORTED_CURRENCIES = [''NGN'', ''USD'', ''GBP'', ''GHS'']"

text \<open>\<open>STATUS_CODES\<close>\<close>

definition SUCCESSFUL :: string where "SUCCESSFUL = ''AP00''"
definition PENDING :: string where "PENDING = ''AP02''"
definition MALFORMED :: string where "MALFORMED = ''SY03''"
definition MISSING_KEYWORD :: string where "MISSING_KEYWORD = ''SY01''"
definition INVALID_ORDER :: string where "INVALID_ORDER = ''SY02''"
definition INVALID_AMOUNT :: string where "INVALID_AMOUNT = ''AM01''"
definition INVALID_ACCOUNT_ID :: string where "INVALID_ACCOUNT_ID = ''AC04''"
definition INVALID_DATE :: string where "INVALID_DATE = ''DT01''"
definition ACCOUNT_NOT_FOUND :: string where "ACCOUNT_NOT_FOUND = ''AC03''"
definition UNSUPPORTED_CURRENCY :: string where "UNSUPPORTED_CURRENCY = ''CU02''"
definition CURRENCY_MISMATCH :: string where "CURRENCY_MISMATCH = ''CU01''"
definition SAME_ACCOUNT :: string where "SAME_ACCOUNT = ''AC02''"
definition INSUFFICIENT_FUNDS :: string where "INSUFFICIENT_FUNDS = ''AC01''"

text \<open>\<open>PaymentMessages\<close> (messages/payment.js)\<close>

definition MSG_INVALID_AMOUNT :: string where
  "MSG_INVALID_AMOUNT = ''Amount must be a positive integer''"
definition MSG_CURRENCY_MISMATCH :: string where
  "MSG_CURRENCY_MISMATCH = ''Account currency mismatch''"
definition MSG_UNSUPPORTED_CURRENCY :: string where
  "MSG_UNSUPPORTED_CURRENCY = ''Unsupported currency. Only NGN, USD, GBP, and GHS are supported''"
definition MSG_INSUFFICIENT_FUNDS :: string where
  "MSG_INSUFFICIENT_FUNDS = ''Insufficient funds in debit account''"
definition MSG_SAME_ACCOUNT_ERROR :: string where
  "MSG_SAME_ACCOUNT_ERROR = ''Debit and credit accounts cannot be the same''"
definition MSG_ACCOUNT_NOT_FOUND :: string where
  "MSG_ACCOUNT_NOT_FOUND = ''Account not found''"
definition MSG_INVALID_ACCOUNT_ID :: string where
  "MSG_INVALID_ACCOUNT_ID = ''Invalid account ID format''"
definition MSG_INVALID_DATE_FORMAT :: string where
  "MSG_INVALID_DATE_FORMAT = ''Invalid date format. Must be YYYY-MM-DD''"
definition MSG_MISSING_KEYWORD :: string where
  "MSG_MISSING_KEYWORD = ''Missing required keyword''"
definition MSG_INVALID_KEYWORD_ORDER :: string where
  "MSG_INVALID_KEYWORD_ORDER = ''Invalid keyword order''"
definition MSG_MALFORMED_INSTRUCTION :: string where
  "MSG_MALFORMED_INSTRUCTION = ''Malformed instruction: unable to parse keywords''"
definition MSG_TRANSACTION_SUCCESSFUL :: string where
  "MSG_TRANSACTION_SUCCESSFUL = ''Transaction executed successfully''"
definition MSG_TRANSACTION_PENDING :: string where
  "MSG_TRANSACTION_PENDING = ''Transaction scheduled for future execution''"

section \<open>Data\<close>

text \<open>
  Field names follow the source; where two objects of the source share a field name the
  record fields carry a short prefix (\<open>acc_\<close> for an input account, \<open>p_\<close> for the parse
  result, \<open>v_\<close> for an account view of the response, \<open>r_\<close> for the response).
\<close>

record Account =
  acc_id :: string
  acc_balance :: int
  acc_currency :: string

record Violation =
  code :: string
  message :: string

datatype State =
    START | TYPE' | AMOUNT | CURRENCY | FIRST_KEYWORD | FIRST_ACCOUNT_KEYWORD
  | FIRST_ACCOUNT | FOR | SECOND_TYPE | SECOND_KEYWORD | SECOND_ACCOUNT_KEYWORD
  | SECOND_ACCOUNT | ON | DATE | COMPLETE

record ParseResult =
  p_type :: "string option"
  p_amount :: "int option"
  p_currency :: "string option"
  debitAccount :: "string option"
  creditAccount :: "string option"
  executeBy :: "string option"
  errors :: "Violation list"

record AccountView =
  v_id :: string
  v_balance :: int
  balance_before :: int
  v_currency :: string

record Response =
  r_type :: "string option"
  r_amount :: "int option"
  r_currency :: "string option"
  debit_account :: "string option"
  credit_account :: "string option"
  execute_by :: "string option"
  status :: string
  status_reason :: string
  status_code :: string
  accounts :: "AccountView list"

section \<open>Tokenizer and lexical validators\<close>

definition tokenize :: "string \<Rightarrow> string list" where
  "tokenize instruction =
     (let normalized = collapseSpaces (trim instruction)
      in filter (\<lambda>word. length word > 0) (split (CHR '' '') normalized))"

definition isValidAccountId :: "string \<Rightarrow> bool" where
  "isValidAccountId ident =
     list_all (\<lambda>c.
        let isLetter = (((97::nat) \<le> of_char c \<and> of_char c \<le> (122::nat))
                        \<or> ((65::nat) \<le> of_char c \<and> of_char c \<le> (90::nat)));
            isNumber = ((48::nat) \<le> of_char c \<and> of_char c \<le> (57::nat));
            isSpecial = (c = CHR ''-'' \<or> c = CHR ''.'' \<or> c = CHR ''@'')
        in \<not> (\<not> isLetter \<and> \<not> isNumber \<and> \<not> isSpecial)) ident"

definition substring :: "string \<Rightarrow> nat \<Rightarrow> nat \<Rightarrow> string" where
  "substring s i j = take (j - i) (drop i s)"

definition isValidDateFormat :: "string \<Rightarrow> bool" where
  "isValidDateFormat date =
     (if length date \<noteq> 10 then False
      else if date ! 4 \<noteq> CHR ''-'' \<or> date ! 7 \<noteq> CHR ''-'' then False
      else
        let year = substring date 0 4;
            month = substring date 5 7;
            day = substring date 8 10;
            digits = year @ month @ day
        in if \<not> list_all isDigit digits then False
           else (case (parseInt month, parseInt day) of
                   (Some monthNum, Some dayNum) \<Rightarrow>
                      monthNum \<ge> 1 \<and> monthNum \<le> 12 \<and> dayNum \<ge> 1 \<and> dayNum \<le> 31
                 | _ \<Rightarrow> False))"

text \<open>
  \<open>isFutureDate\<close> reads the clock. The model takes the clock's reading as a parameter:
  \<open>today\<close> is the triple (\<open>getUTCFullYear\<close>, \<open>getUTCMonth\<close>, \<open>getUTCDate\<close>) of
  \<open>new Date()\<close>, with the month counted from 0. A calendar date is such a triple.

  \<open>new Date(`${dateStr}T00:00:00Z`)\<close> is modelled for the strings \<open>isValidDateFormat\<close>
  accepts, the only ones the service passes: a day beyond the end of its month rolls over
  into the next month (as the date parser of Node's engine does), any other string is an
  invalid date, which compares false. \<open>new Date(y, m, d)\<close> maps a year from 0 to 99 to
  1900 + year and rolls a day beyond the month's end over as well; the host's time zone is
  taken to keep the order of calendar days.
\<close>

type_synonym CalendarDate = "int \<times> nat \<times> nat"

definition isLeapYear :: "int \<Rightarrow> bool" where
  "isLeapYear y = (y mod 4 = 0 \<and> (y mod 100 \<noteq> 0 \<or> y mod 400 = 0))"

definition daysInMonth :: "int \<Rightarrow> nat \<Rightarrow> nat" where
  "daysInMonth y m =
     (if m = 1 then (if isLeapYear y then 29 else 28)
      else if m = 3 \<or> m = 5 \<or> m = 8 \<or> m = 10 then 30 else 31)"

definition rollOver :: "CalendarDate \<Rightarrow> CalendarDate" where
  "rollOver dt =
     (case dt of (y, m, d) \<Rightarrow>
        if d > daysInMonth y m then (y, m + 1, d - daysInMonth y m) else (y, m, d))"

definition utcDateOf :: "string \<Rightarrow> CalendarDate option" where
  "utcDateOf dateStr =
     (if isValidDateFormat dateStr then
        (case (parseInt (substring dateStr 0 4), parseInt (substring dateStr 5 7),
               parseInt (substring dateStr 8 10)) of
           (Some y, Some m, Some d) \<Rightarrow> Some (rollOver (y, nat m - 1, nat d))
         | _ \<Rightarrow> None)
      else None)"

definition localMidnight :: "CalendarDate \<Rightarrow> CalendarDate" where
  "localMidnight dt =
     (case dt of (y, m, d) \<Rightarrow> rollOver (if 0 \<le> y \<and> y \<le> 99 then 1900 + y else y, m, d))"

definition dateLess :: "CalendarDate \<Rightarrow> CalendarDate \<Rightarrow> bool" where
  "dateLess a b =
     (case (a, b) of ((y1, m1, d1), (y2, m2, d2)) \<Rightarrow>
        y1 < y2 \<or> (y1 = y2 \<and> (m1 < m2 \<or> (m1 = m2 \<and> d1 < d2))))"

definition isFutureDate :: "CalendarDate \<Rightarrow> string \<Rightarrow> bool" where
  "isFutureDate today dateStr =
     (case utcDateOf dateStr of
        None \<Rightarrow> False
      | Some inputDate \<Rightarrow>
          (let nowDate = localMidnight today;
               compareDate = localMidnight inputDate
           in dateLess nowDate compareDate))"

section \<open>The grammar state machine\<close>

definition violation :: "string \<Rightarrow> string \<Rightarrow> Violation" where
  "violation c m = \<lparr>code = c, message = m\<rparr>"

definition push :: "ParseResult \<Rightarrow> Violation \<Rightarrow> ParseResult" where
  "push result v = result\<lparr>errors := errors result @ [v]\<rparr>"

definition initialResult :: ParseResult where
  "initialResult =
     \<lparr>p_type = None, p_amount = None, p_currency = None, debitAccount = None,
      creditAccount = None, executeBy = None, errors = []\<rparr>"

text \<open>
  One pass through the body of the \<open>while\<close> loop of \<open>parseWithStateMachine\<close>: the
  \<open>switch\<close> on the state. \<open>Return\<close> is a \<open>return result\<close> inside the loop (the fatal
  violations), \<open>Next\<close> a \<open>break\<close> out of the \<open>switch\<close>, after which the index advances.
\<close>

datatype Step = Return ParseResult | Next State ParseResult

fun step :: "State \<Rightarrow> ParseResult \<Rightarrow> string \<Rightarrow> Step" where
  "step START result token =
     (let tokenUpper = toUpperCase token in
      if tokenUpper = ''DEBIT'' \<or> tokenUpper = ''CREDIT''
      then Next TYPE' (result\<lparr>p_type := Some tokenUpper\<rparr>)
      else Return (push result (violation MISSING_KEYWORD MSG_MISSING_KEYWORD)))"
| "step TYPE' result token =
     (let amount = parseInt token in
      if CHR ''.'' \<in> set token
      then Next AMOUNT (push result (violation INVALID_AMOUNT MSG_INVALID_AMOUNT))
      else (case amount of
              None \<Rightarrow> Next AMOUNT (push result (violation INVALID_AMOUNT MSG_INVALID_AMOUNT))
            | Some n \<Rightarrow>
                if n \<le> 0
                then Next AMOUNT (push result (violation INVALID_AMOUNT MSG_INVALID_AMOUNT))
                else Next AMOUNT (result\<lparr>p_amount := Some n\<rparr>)))"
| "step AMOUNT result token =
     Next CURRENCY (result\<lparr>p_currency := Some (toUpperCase token)\<rparr>)"
| "step CURRENCY result token =
     (let tokenUpper = toUpperCase token;
          expectedFirst = (if p_type result = Some ''DEBIT'' then ''FROM'' else ''TO'') in
      if tokenUpper = expectedFirst then Next FIRST_KEYWORD result
      else Return (push result (violation INVALID_ORDER MSG_INVALID_KEYWORD_ORDER)))"
| "step FIRST_KEYWORD result token =
     (if toUpperCase token = ''ACCOUNT'' then Next FIRST_ACCOUNT_KEYWORD result
      else Return (push result (violation MISSING_KEYWORD MSG_MISSING_KEYWORD)))"
| "step FIRST_ACCOUNT_KEYWORD result token =
     (if p_type result = Some ''DEBIT''
      then Next FIRST_ACCOUNT (result\<lparr>debitAccount := Some token\<rparr>)
      else Next FIRST_ACCOUNT (result\<lparr>creditAccount := Some token\<rparr>))"
| "step FIRST_ACCOUNT result token =
     (if toUpperCase token = ''FOR'' then Next FOR result
      else Return (push result (violation MISSING_KEYWORD MSG_MISSING_KEYWORD)))"
| "step FOR result token =
     (let tokenUpper = toUpperCase token;
          expectedSecondType = (if p_type result = Some ''DEBIT'' then ''CREDIT'' else ''DEBIT'') in
      if tokenUpper = expectedSecondType then Next SECOND_TYPE result
      else Return (push result (violation INVALID_ORDER MSG_INVALID_KEYWORD_ORDER)))"
| "step SECOND_TYPE result token =
     (let tokenUpper = toUpperCase token;
          expectedSecond = (if p_type result = Some ''DEBIT'' then ''TO'' else ''FROM'') in
      if tokenUpper = expectedSecond then Next SECOND_KEYWORD result
      else Return (push result (violation INVALID_ORDER MSG_INVALID_KEYWORD_ORDER)))"
| "step SECOND_KEYWORD result token =
     (if toUpperCase token = ''ACCOUNT'' then Next SECOND_ACCOUNT_KEYWORD result
      else Return (push result (violation MISSING_KEYWORD MSG_MISSING_KEYWORD)))"
| "step SECOND_ACCOUNT_KEYWORD result token =
     (if p_type result = Some ''DEBIT''
      then Next SECOND_ACCOUNT (result\<lparr>creditAccount := Some token\<rparr>)
      else Next SECOND_ACCOUNT (result\<lparr>debitAccount := Some token\<rparr>))"
| "step SECOND_ACCOUNT result token =
     (if toUpperCase token = ''ON'' then Next ON result
      else Return (push result (violation MALFORMED MSG_MALFORMED_INSTRUCTION)))"
| "step ON result token =
     (if isValidDateFormat token then Next DATE (result\<lparr>executeBy := Some token\<rparr>)
      else Next DATE (push result (violation INVALID_DATE MSG_INVALID_DATE_FORMAT)))"
| "step DATE result token =
     Return (push result (violation MALFORMED MSG_MALFORMED_INSTRUCTION))"
| "step COMPLETE result token =
     Return (push result (violation MALFORMED MSG_MALFORMED_INSTRUCTION))"

text \<open>
  The \<open>while\<close> loop, over the tokens from the current index on. It leaves either by a
  \<open>return\<close> inside the loop (\<open>Returned\<close>) or because its condition fails: the tokens are
  exhausted or the state is \<open>COMPLETE\<close> (\<open>Exhausted\<close>, with the state reached).
\<close>

datatype LoopExit = Returned ParseResult | Exhausted State ParseResult

fun whileLoop :: "State \<Rightarrow> ParseResult \<Rightarrow> string list \<Rightarrow> LoopExit" where
  "whileLoop state result [] = Exhausted state result"
| "whileLoop state result (token # rest) =
     (if state = COMPLETE then Exhausted state result
      else (case step state result token of
              Return r \<Rightarrow> Returned r
            | Next state' result' \<Rightarrow> whileLoop state' result' rest))"

text \<open>The code after the loop: "check if we completed successfully".\<close>

definition finish :: "State \<Rightarrow> ParseResult \<Rightarrow> ParseResult" where
  "finish state result =
     (let state' = (if state = SECOND_ACCOUNT \<or> state = DATE then COMPLETE else state) in
      if state' \<noteq> COMPLETE then
        (if length (errors result) = 0
         then push result (violation MALFORMED MSG_MALFORMED_INSTRUCTION)
         else result)
      else result)"

definition parseWithStateMachine :: "string list \<Rightarrow> ParseResult" where
  "parseWithStateMachine tokens =
     (case whileLoop START initialResult tokens of
        Returned r \<Rightarrow> r
      | Exhausted state result \<Rightarrow> finish state result)"

section \<open>Business rules\<close>

text \<open>
  Truthiness of the host language for the values tested with \<open>x && ...\<close>: a string is
  truthy unless it is null or empty, a number unless it is null or zero. The checks below
  spell this out where they test an account id, the currency or the amount.
\<close>

definition truthyString :: "string option \<Rightarrow> bool" where
  "truthyString s = (case s of None \<Rightarrow> False | Some x \<Rightarrow> x \<noteq> [])"

text \<open>\<open>accounts.find((a) => a.id === wanted)\<close>; a null id matches no account.\<close>

definition findAccount :: "Account list \<Rightarrow> string option \<Rightarrow> Account option" where
  "findAccount accs wanted = List.find (\<lambda>a. Some (acc_id a) = wanted) accs"

text \<open>
  \<open>validateBusinessRules\<close> copies the syntax violations and then runs its checks one
  after the other, each pushing to the same list. Each definition below is one of these
  blocks and gives the violations the block pushes, in the order of the source.
\<close>

definition checkAccountIdFormat :: "string option \<Rightarrow> Violation list" where
  "checkAccountIdFormat acct =
     (case acct of
        None \<Rightarrow> []
      | Some a \<Rightarrow>
          if a \<noteq> [] \<and> \<not> isValidAccountId a
          then [violation INVALID_ACCOUNT_ID (MSG_INVALID_ACCOUNT_ID @ '': '' @ a)]
          else [])"

definition checkSameAccount :: "ParseResult \<Rightarrow> Violation list" where
  "checkSameAccount parsed =
     (if debitAccount parsed = creditAccount parsed
      then [violation SAME_ACCOUNT MSG_SAME_ACCOUNT_ERROR] else [])"

definition checkCurrencySupport :: "ParseResult \<Rightarrow> Violation list" where
  "checkCurrencySupport parsed =
     (case p_currency parsed of
        None \<Rightarrow> []
      | Some c \<Rightarrow>
          if c \<noteq> [] \<and> \<not> (c \<in> set SUPPORTED_CURRENCIES)
          then [violation UNSUPPORTED_CURRENCY MSG_UNSUPPORTED_CURRENCY] else [])"

definition checkAccountFound :: "string option \<Rightarrow> Account option \<Rightarrow> Violation list" where
  "checkAccountFound acct found =
     (case acct of
        None \<Rightarrow> []
      | Some a \<Rightarrow>
          if a \<noteq> [] \<and> found = None
          then [violation ACCOUNT_NOT_FOUND (MSG_ACCOUNT_NOT_FOUND @ '': '' @ a)]
          else [])"

definition checkAccountCurrencies :: "Account \<Rightarrow> Account \<Rightarrow> Violation list" where
  "checkAccountCurrencies debit credit =
     (if acc_currency debit \<noteq> acc_currency credit
      then [violation CURRENCY_MISMATCH MSG_CURRENCY_MISMATCH] else [])"

definition checkInstructionCurrency :: "ParseResult \<Rightarrow> Account \<Rightarrow> Violation list" where
  "checkInstructionCurrency parsed debit =
     (case p_currency parsed of
        None \<Rightarrow> []
      | Some c \<Rightarrow>
          if c \<noteq> [] \<and> toUpperCase (acc_currency debit) \<noteq> c
          then [violation CURRENCY_MISMATCH
                  (''Currency mismatch: instruction says '' @ c @ '' but account has ''
                     @ toUpperCase (acc_currency debit))]
          else [])"

definition checkFunds :: "ParseResult \<Rightarrow> Account \<Rightarrow> Violation list" where
  "checkFunds parsed debit =
     (case p_amount parsed of
        None \<Rightarrow> []
      | Some n \<Rightarrow>
          if n \<noteq> 0 \<and> acc_balance debit < n
          then [violation INSUFFICIENT_FUNDS
                  (MSG_INSUFFICIENT_FUNDS @ '': has '' @ numberToString (acc_balance debit)
                     @ '' '' @ acc_currency debit @ '', needs '' @ numberToString n)]
          else [])"

definition checkResolved :: "ParseResult \<Rightarrow> Account option \<Rightarrow> Account option \<Rightarrow> Violation list" where
  "checkResolved parsed debit credit =
     (case (debit, credit) of
        (Some d, Some c) \<Rightarrow>
           checkAccountCurrencies d c @ checkInstructionCurrency parsed d @ checkFunds parsed d
      | _ \<Rightarrow> [])"

record Validation =
  val_errors :: "Violation list"
  val_debitAccount :: "Account option"
  val_creditAccount :: "Account option"

definition validateBusinessRules :: "ParseResult \<Rightarrow> Account list \<Rightarrow> Validation" where
  "validateBusinessRules parsed accs =
     (let debit = findAccount accs (debitAccount parsed);
          credit = findAccount accs (creditAccount parsed)
      in \<lparr>val_errors =
            errors parsed
            @ checkAccountIdFormat (debitAccount parsed)
            @ checkAccountIdFormat (creditAccount parsed)
            @ checkSameAccount parsed
            @ checkCurrencySupport parsed
            @ checkAccountFound (debitAccount parsed) debit
            @ checkAccountFound (creditAccount parsed) credit
            @ checkResolved parsed debit credit,
          val_debitAccount = debit,
          val_creditAccount = credit\<rparr>)"

section \<open>Error priority\<close>

text \<open>The \<open>priority\<close> table of \<open>selectPrimaryError\<close>; a code not in it has no entry.\<close>

definition priority :: "string \<Rightarrow> nat option" where
  "priority = map_of
     [(''SY03'', 1), (''SY01'', 2), (''SY02'', 3), (''AM01'', 4), (''AC04'', 5), (''DT01'', 6),
      (''AC03'', 7), (''CU02'', 8), (''CU01'', 9), (''AC02'', 10), (''AC01'', 11)]"

text \<open>\<open>priority[error.code] || 999\<close>\<close>

definition priorityOf :: "Violation \<Rightarrow> nat" where
  "priorityOf error =
     (case priority (code error) of None \<Rightarrow> 999 | Some p \<Rightarrow> (if p = 0 then 999 else p))"

text \<open>
  The body of the \<open>forEach\<close>, on the pair of the two variables it updates
  (\<open>primaryError\<close>, \<open>lowestPriority\<close>).
\<close>

definition selectStep :: "Violation option \<times> nat \<Rightarrow> Violation \<Rightarrow> Violation option \<times> nat" where
  "selectStep acc error =
     (case acc of (primaryError, lowestPriority) \<Rightarrow>
        (let p = priorityOf error in
         if p < lowestPriority then (Some error, p) else (primaryError, lowestPriority)))"

definition selectPrimaryError :: "Violation list \<Rightarrow> Violation option" where
  "selectPrimaryError errs = fst (foldl selectStep (None, 999) errs)"

section \<open>The service\<close>

definition accountView :: "Account \<Rightarrow> int \<Rightarrow> AccountView" where
  "accountView account newBalance =
     \<lparr>v_id = acc_id account, v_balance = newBalance, balance_before = acc_balance account,
      v_currency = toUpperCase (acc_currency account)\<rparr>"

text \<open>The response of the \<open>catch\<close> block, and of the unparseable class with its own
  reason and code.\<close>

definition nullResponse :: "string \<Rightarrow> string \<Rightarrow> Response" where
  "nullResponse reason c =
     \<lparr>r_type = None, r_amount = None, r_currency = None, debit_account = None,
      credit_account = None, execute_by = None, status = ''failed'',
      status_reason = reason, status_code = c, accounts = []\<rparr>"

definition caughtResponse :: Response where
  "caughtResponse = nullResponse MSG_MALFORMED_INSTRUCTION MALFORMED"

definition involvedAccounts :: "ParseResult \<Rightarrow> Account list \<Rightarrow> AccountView list" where
  "involvedAccounts parsed accs =
     map (\<lambda>account. accountView account (acc_balance account))
       (filter (\<lambda>account. Some (acc_id account) = debitAccount parsed
                            \<or> Some (acc_id account) = creditAccount parsed) accs)"

text \<open>
  The \<open>forEach\<close> of the success branch. It reads \<open>validation.debitAccount.id\<close> for every
  account and \<open>validation.creditAccount.id\<close> for every account that is not the debit
  account; on an undefined record that read throws, which is \<open>None\<close> here. In arithmetic a
  null amount counts as 0.
\<close>

definition amountOf :: "ParseResult \<Rightarrow> int" where
  "amountOf parsed = (case p_amount parsed of None \<Rightarrow> 0 | Some n \<Rightarrow> n)"

fun processedAccounts ::
  "bool \<Rightarrow> ParseResult \<Rightarrow> Validation \<Rightarrow> Account list \<Rightarrow> AccountView list option" where
  "processedAccounts isPending parsed validation [] = Some []"
| "processedAccounts isPending parsed validation (account # rest) =
     (case val_debitAccount validation of
        None \<Rightarrow> None
      | Some d \<Rightarrow>
          if acc_id account = acc_id d then
            map_option
              (\<lambda>vs. accountView account
                       (if isPending then acc_balance account
                        else acc_balance account - amountOf parsed) # vs)
              (processedAccounts isPending parsed validation rest)
          else
            (case val_creditAccount validation of
               None \<Rightarrow> None
             | Some c \<Rightarrow>
                 if acc_id account = acc_id c then
                   map_option
                     (\<lambda>vs. accountView account
                              (if isPending then acc_balance account
                               else acc_balance account + amountOf parsed) # vs)
                     (processedAccounts isPending parsed validation rest)
                 else processedAccounts isPending parsed validation rest))"

text \<open>
  \<open>parseInstruction\<close>, the function the endpoint calls (\<open>processInstruction\<close> in the
  specification), after the schema validator has accepted the request. \<open>today\<close> is the
  clock's calendar date. Logging is left out.
\<close>

definition processInstruction :: "CalendarDate \<Rightarrow> Account list \<Rightarrow> string \<Rightarrow> Response" where
  "processInstruction today accs instruction =
     (let tokens = tokenize instruction;
          parsed = parseWithStateMachine tokens;
          validation = validateBusinessRules parsed accs
      in if length (val_errors validation) > 0 then
           (case selectPrimaryError (val_errors validation) of
              None \<Rightarrow> caughtResponse
            | Some error \<Rightarrow>
                if code error = MALFORMED \<or> code error = MISSING_KEYWORD
                   \<or> code error = INVALID_ORDER
                then nullResponse (message error) (code error)
                else
                  \<lparr>r_type = p_type parsed, r_amount = p_amount parsed,
                   r_currency = p_currency parsed, debit_account = debitAccount parsed,
                   credit_account = creditAccount parsed, execute_by = executeBy parsed,
                   status = ''failed'', status_reason = message error,
                   status_code = code error, accounts = involvedAccounts parsed accs\<rparr>)
         else
           (let isPending = (truthyString (executeBy parsed)
                             \<and> (case executeBy parsed of
                                   None \<Rightarrow> False
                                 | Some d \<Rightarrow> isFutureDate today d))
            in case processedAccounts isPending parsed validation accs of
                 None \<Rightarrow> caughtResponse
               | Some views \<Rightarrow>
                   \<lparr>r_type = p_type parsed, r_amount = p_amount parsed,
                    r_currency = p_currency parsed, debit_account = debitAccount parsed,
                    credit_account = creditAccount parsed, execute_by = executeBy parsed,
                    status = (if isPending then ''pending'' else ''successful''),
                    status_reason = (if isPending then MSG_TRANSACTION_PENDING
                                     else MSG_TRANSACTION_SUCCESSFUL),
                    status_code = (if isPending then PENDING else SUCCESSFUL),
                    accounts = views\<rparr>))"

section \<open>An invariant of the state machine\<close>

text \<open>
  Used in the proofs only: what the parse result holds once the machine has reached a
  state. Past the amount slot an amount is set unless a violation was recorded; past the
  first account slot the first account id is set, in the role the instruction type gives
  it; past the second account slot both ids are set. The ids are non-empty when the
  tokens are.
\<close>

definition fieldsSet :: "State \<Rightarrow> ParseResult \<Rightarrow> bool" where
  "fieldsSet st res =
     ((st \<noteq> START \<and> st \<noteq> TYPE' \<longrightarrow>
         errors res \<noteq> [] \<or> (\<exists>n. p_amount res = Some n \<and> 0 < n))
      \<and> (st \<in> {FIRST_ACCOUNT, FOR, SECOND_TYPE, SECOND_KEYWORD, SECOND_ACCOUNT_KEYWORD} \<longrightarrow>
            (if p_type res = Some ''DEBIT''
             then (\<exists>a. debitAccount res = Some a \<and> a \<noteq> [])
             else (\<exists>a. creditAccount res = Some a \<and> a \<noteq> [])))
      \<and> (st \<in> {SECOND_ACCOUNT, ON, DATE} \<longrightarrow>
            (\<exists>a. debitAccount res = Some a \<and> a \<noteq> [])
            \<and> (\<exists>a. creditAccount res = Some a \<and> a \<noteq> [])))"

section \<open>Basic facts\<close>

lemmas code_defs = MALFORMED_def MISSING_KEYWORD_def INVALID_ORDER_def INVALID_AMOUNT_def
  INVALID_ACCOUNT_ID_def INVALID_DATE_def ACCOUNT_NOT_FOUND_def UNSUPPORTED_CURRENCY_def
  CURRENCY_MISMATCH_def SAME_ACCOUNT_def INSUFFICIENT_FUNDS_def

lemma code_violation [simp]: "code (violation c m) = c"
  by (simp add: violation_def)

lemma message_violation [simp]: "message (violation c m) = m"
  by (simp add: violation_def)

lemma errors_push [simp]: "errors (push r v) = errors r @ [v]"
  by (simp add: push_def)

lemma p_amount_push [simp]: "p_amount (push r v) = p_amount r"
  by (simp add: push_def)

section \<open>The state machine: what a run can record\<close>

text \<open>No step moves to \<open>COMPLETE\<close>: the loop only reaches it after its last token.\<close>

lemma step_not_COMPLETE: "step st res t = Next st' res' \<Longrightarrow> st' \<noteq> COMPLETE"
  by (cases st) (auto simp: Let_def split: if_splits option.splits)

lemma whileLoop_not_COMPLETE:
  "whileLoop st res ts = Exhausted st' r \<Longrightarrow> st \<noteq> COMPLETE \<Longrightarrow> st' \<noteq> COMPLETE"
proof (induction ts arbitrary: st res)
  case Nil
  then show ?case by simp
next
  case (Cons t ts)
  then show ?case
    by (auto split: Step.splits if_splits dest: step_not_COMPLETE)
qed

text \<open>A step that lets the loop go on records at most one violation, and only a
  non-fatal one: an invalid amount or an invalid date.\<close>

lemma step_Next_errors:
  "step st res t = Next st' res' \<Longrightarrow>
     errors res' = errors res
     \<or> errors res' = errors res @ [violation INVALID_AMOUNT MSG_INVALID_AMOUNT]
     \<or> errors res' = errors res @ [violation INVALID_DATE MSG_INVALID_DATE_FORMAT]"
  by (cases st) (auto simp: Let_def split: if_splits option.splits)

lemma whileLoop_Exhausted_codes:
  "whileLoop st res ts = Exhausted st' r \<Longrightarrow>
     set (map code (errors r)) \<subseteq> set (map code (errors res)) \<union> {INVALID_AMOUNT, INVALID_DATE}"
proof (induction ts arbitrary: st res)
  case Nil
  then show ?case by auto
next
  case (Cons t ts)
  show ?case
  proof (cases "st = COMPLETE")
    case True
    with Cons.prems show ?thesis by auto
  next
    case False
    with Cons.prems obtain st1 r1 where s: "step st res t = Next st1 r1"
      and w: "whileLoop st1 r1 ts = Exhausted st' r"
      by (auto split: Step.splits)
    have "set (map code (errors r1))
            \<subseteq> set (map code (errors res)) \<union> {INVALID_AMOUNT, INVALID_DATE}"
      using step_Next_errors[OF s] by auto
    with Cons.IH[OF w] show ?thesis by blast
  qed
qed

lemma finish_cases:
  "finish st r =
     (if st = SECOND_ACCOUNT \<or> st = DATE \<or> st = COMPLETE \<or> errors r \<noteq> [] then r
      else push r (violation MALFORMED MSG_MALFORMED_INSTRUCTION))"
  by (auto simp: finish_def Let_def)

section \<open>Tokens exhausted early (C7)\<close>

text \<open>
  C7, as stated: whenever the tokens run out before the machine reaches \<open>SECOND_ACCOUNT\<close>
  or \<open>DATE\<close>, and no fatal violation stopped the loop, the parse result holds a
  \<open>MALFORMED\<close> violation. This fails: on the tokens \<open>DEBIT -100\<close> the loop runs out of
  tokens in state \<open>AMOUNT\<close>, the only violation recorded is the non-fatal invalid amount,
  and the code after the loop adds \<open>MALFORMED\<close> only to an empty violation list.
\<close>

theorem exhausted_after_invalid_amount_not_malformed:
  "whileLoop START initialResult [''DEBIT'', ''-100'']
     = Exhausted AMOUNT (push (initialResult\<lparr>p_type := Some ''DEBIT''\<rparr>)
                           (violation INVALID_AMOUNT MSG_INVALID_AMOUNT))
   \<and> AMOUNT \<noteq> SECOND_ACCOUNT \<and> AMOUNT \<noteq> DATE
   \<and> MALFORMED \<notin> set (map code (errors (parseWithStateMachine [''DEBIT'', ''-100''])))"
  by code_simp

text \<open>
  C7, amended: when the tokens run out before the machine reaches \<open>SECOND_ACCOUNT\<close> or
  \<open>DATE\<close>, the parse result holds a \<open>MALFORMED\<close> violation exactly when no violation at
  all, fatal or not, was recorded before; it is then the only violation. When a non-fatal
  violation was recorded, the result is left as the loop produced it.
\<close>

theorem exhausted_malformed_iff_no_violation:
  assumes "whileLoop START initialResult tokens = Exhausted st r"
    and "st \<noteq> SECOND_ACCOUNT" and "st \<noteq> DATE"
  shows "((MALFORMED \<in> set (map code (errors (parseWithStateMachine tokens)))) = (errors r = []))
    \<and> (errors r = [] \<longrightarrow>
          errors (parseWithStateMachine tokens) = [violation MALFORMED MSG_MALFORMED_INSTRUCTION])
    \<and> (errors r \<noteq> [] \<longrightarrow> parseWithStateMachine tokens = r)"
proof -
  have nc: "st \<noteq> COMPLETE" using whileLoop_not_COMPLETE[OF assms(1)] by simp
  have codes: "set (map code (errors r)) \<subseteq> {INVALID_AMOUNT, INVALID_DATE}"
    using whileLoop_Exhausted_codes[OF assms(1)] by (simp add: initialResult_def)
  have p: "parseWithStateMachine tokens = finish st r"
    by (simp add: parseWithStateMachine_def assms(1))
  have one: "errors r = [] \<longrightarrow>
           errors (parseWithStateMachine tokens) = [violation MALFORMED MSG_MALFORMED_INSTRUCTION]"
    using nc assms(2,3) by (simp add: p finish_cases)
  have two: "errors r \<noteq> [] \<longrightarrow> parseWithStateMachine tokens = r"
    by (simp add: p finish_cases)
  have three: "(MALFORMED \<in> set (map code (errors (parseWithStateMachine tokens)))) = (errors r = [])"
  proof (cases "errors r = []")
    case True
    then show ?thesis using nc assms(2,3) by (simp add: p finish_cases)
  next
    case False
    have "MALFORMED \<notin> set (map code (errors r))"
      using codes by (auto simp: code_defs)
    with False show ?thesis by (simp add: p finish_cases)
  qed
  from one two three show ?thesis by blast
qed

theorem exhausted_malformed_iff_no_violation_witness:
  "whileLoop START initialResult [''DEBIT'']
     = Exhausted TYPE' (initialResult\<lparr>p_type := Some ''DEBIT''\<rparr>)
   \<and> TYPE' \<noteq> SECOND_ACCOUNT \<and> TYPE' \<noteq> DATE
   \<and> errors (parseWithStateMachine [''DEBIT''])
       = [violation MALFORMED MSG_MALFORMED_INSTRUCTION]"
proof -
  have h: "whileLoop START initialResult [''DEBIT'']
             = Exhausted TYPE' (initialResult\<lparr>p_type := Some ''DEBIT''\<rparr>)"
    by code_simp
  have e: "errors (initialResult\<lparr>p_type := Some ''DEBIT''\<rparr>) = []"
    by (simp add: initialResult_def)
  from exhausted_malformed_iff_no_violation[OF h] e h show ?thesis by simp
qed

section \<open>The error prioritizer (C3)\<close>

lemma priorityOf_le: "priorityOf e \<le> 999"
  by (simp add: priorityOf_def priority_def)

lemma priorityOf_unmapped: "priority (code e) = None \<Longrightarrow> priorityOf e = 999"
  by (simp add: priorityOf_def)

lemma priorityOf_mapped: "priority (code e) = Some p \<Longrightarrow> priorityOf e = p \<and> 1 \<le> p \<and> p \<le> 11"
  by (auto simp: priorityOf_def priority_def split: if_splits)

lemma priorityOf_lt_iff: "(priorityOf e < 999) = (priority (code e) \<noteq> None)"
  using priorityOf_mapped[of e] priorityOf_unmapped[of e] by (cases "priority (code e)") auto

text \<open>The invariant of the forEach in selectPrimaryError.\<close>

lemma select_invariant:
  "foldl selectStep (None, 999) errs = (r, low) \<Longrightarrow>
     (\<forall>e \<in> set errs. low \<le> priorityOf e) \<and>
     (case r of
        None \<Rightarrow> low = 999
      | Some e \<Rightarrow> priorityOf e = low \<and> low < 999 \<and>
          (\<exists>pre post. errs = pre @ e # post \<and> (\<forall>x \<in> set pre. low < priorityOf x)))"
proof (induction errs arbitrary: r low rule: rev_induct)
  case Nil
  then show ?case by simp
next
  case (snoc x xs)
  obtain r0 low0 where f: "foldl selectStep (None, 999) xs = (r0, low0)"
    by (cases "foldl selectStep (None, 999) xs") auto
  note IH = snoc.IH[OF f]
  have st: "selectStep (r0, low0) x = (r, low)"
    using snoc.prems f by simp
  show ?case
  proof (cases "priorityOf x < low0")
    case True
    with st have rl: "r = Some x" "low = priorityOf x"
      by (auto simp: selectStep_def Let_def)
    have "low0 \<le> 999" using IH by (cases r0) auto
    with True have lt: "priorityOf x < 999" by simp
    have below: "\<forall>y \<in> set xs. priorityOf x < priorityOf y"
      using True IH by fastforce
    then have "\<exists>pre post. xs @ [x] = pre @ x # post \<and> (\<forall>y \<in> set pre. priorityOf x < priorityOf y)"
      by blast
    with below lt rl show ?thesis
      by (simp add: less_imp_le)
  next
    case False
    with st have rl: "r = r0" "low = low0"
      by (auto simp: selectStep_def Let_def)
    show ?thesis
    proof (cases r0)
      case None
      with IH rl False show ?thesis by auto
    next
      case (Some e)
      with IH obtain pre post where d: "xs = pre @ e # post" "\<forall>x \<in> set pre. low0 < priorityOf x"
        by auto
      from d(1) have "xs @ [x] = pre @ e # (post @ [x])" by simp
      with d(2) have ex: "\<exists>pre post. xs @ [x] = pre @ e # post \<and> (\<forall>x \<in> set pre. low0 < priorityOf x)"
        by blast
      have "priorityOf e = low0" "low0 < 999" "\<forall>y \<in> set xs. low0 \<le> priorityOf y"
        using IH Some by auto
      with ex rl False Some show ?thesis
        by (simp add: not_less)
    qed
  qed
qed

lemma selectPrimaryError_Some:
  assumes "\<exists>e \<in> set errs. priority (code e) \<noteq> None"
  shows "\<exists>pre e post. errs = pre @ e # post \<and> selectPrimaryError errs = Some e
           \<and> priority (code e) \<noteq> None
           \<and> (\<forall>x \<in> set pre. priorityOf e < priorityOf x)
           \<and> (\<forall>x \<in> set post. priorityOf e \<le> priorityOf x)"
proof -
  obtain r low where f: "foldl selectStep (None, 999) errs = (r, low)"
    by (cases "foldl selectStep (None, 999) errs") auto
  note inv = select_invariant[OF f]
  from assms obtain e0 where e0: "e0 \<in> set errs" "priorityOf e0 < 999"
    by (auto simp: priorityOf_lt_iff)
  with inv have "low < 999" by force
  with inv obtain e where r: "r = Some e" by (cases r) auto
  with inv obtain pre post where d: "errs = pre @ e # post" "priorityOf e = low" "low < 999"
      "\<forall>x \<in> set pre. low < priorityOf x"
    by auto
  have "\<forall>x \<in> set post. priorityOf e \<le> priorityOf x" using inv d by auto
  moreover have "selectPrimaryError errs = Some e" by (simp add: selectPrimaryError_def f r)
  moreover have "priority (code e) \<noteq> None" using d priorityOf_lt_iff[of e] by simp
  ultimately show ?thesis using d by blast
qed





section \<open>Upper case\<close>

lemma lower_range_mod: "(97::nat) \<le> n \<Longrightarrow> n \<le> 122 \<Longrightarrow> (n - 32) mod 256 = n - 32"
  by simp

lemma toUpperChar_idem: "toUpperChar (toUpperChar c) = toUpperChar c"
proof (cases "(97::nat) \<le> of_char c \<and> of_char c \<le> (122::nat)")
  case True
  then have u: "toUpperChar c = char_of (of_char c - (32::nat))"
    by (simp add: toUpperChar_def)
  have "(of_char (char_of (of_char c - (32::nat))) :: nat) = of_char c - 32"
    using True by (simp add: lower_range_mod)
  with True have "\<not> ((97::nat) \<le> of_char (char_of (of_char c - (32::nat))))"
    by linarith
  then show ?thesis unfolding u by (subst toUpperChar_def) (simp only: if_False simp_thms)
next
  case False
  then have "toUpperChar c = c" unfolding toUpperChar_def by (simp only: if_False)
  then show ?thesis by simp
qed

lemma toUpperCase_idem: "toUpperCase (toUpperCase s) = toUpperCase s"
  by (simp add: toUpperCase_def toUpperChar_idem)

text \<open>The currency of a parse result is in upper case.\<close>

lemma step_currency_upper:
  "step st res t = Next st' res' \<Longrightarrow>
     (\<forall>c. p_currency res = Some c \<longrightarrow> toUpperCase c = c) \<Longrightarrow>
     p_currency res' = Some c' \<Longrightarrow> toUpperCase c' = c'"
  by (cases st) (auto simp: Let_def push_def toUpperCase_idem split: if_splits option.splits)

lemma step_Return_currency:
  "step st res t = Return res' \<Longrightarrow> p_currency res' = p_currency res"
  by (cases st) (auto simp: Let_def push_def split: if_splits option.splits)

lemma finish_currency [simp]: "p_currency (finish st r) = p_currency r"
  by (simp add: finish_cases push_def)

lemma whileLoop_currency_upper:
  "(\<forall>c. p_currency res = Some c \<longrightarrow> toUpperCase c = c) \<Longrightarrow>
   p_currency (case whileLoop st res ts of Returned r \<Rightarrow> r | Exhausted s r \<Rightarrow> finish s r)
     = Some c'
   \<Longrightarrow> toUpperCase c' = c'"
proof (induction ts arbitrary: st res)
  case Nil
  then show ?case by simp
next
  case (Cons t ts)
  show ?case
  proof (cases "st = COMPLETE")
    case True
    with Cons.prems show ?thesis by simp
  next
    case False
    show ?thesis
    proof (cases "step st res t")
      case (Return r)
      with Cons.prems False step_Return_currency[OF Return] show ?thesis by simp
    next
      case (Next st1 r1)
      have up: "\<forall>c. p_currency r1 = Some c \<longrightarrow> toUpperCase c = c"
        using step_currency_upper[OF Next Cons.prems(1)] by blast
      from Cons.prems(2) False Next
      have "p_currency (case whileLoop st1 r1 ts of Returned r \<Rightarrow> r
                        | Exhausted s r \<Rightarrow> finish s r) = Some c'"
        by simp
      from Cons.IH[OF up this] show ?thesis .
    qed
  qed
qed

lemma parsed_currency_upper:
  "p_currency (parseWithStateMachine tokens) = Some c \<Longrightarrow> toUpperCase c = c"
  using whileLoop_currency_upper[where res = initialResult and st = START and ts = tokens]
  by (simp add: parseWithStateMachine_def initialResult_def)

section \<open>The business-rule validator\<close>

lemmas check_defs = checkAccountIdFormat_def checkSameAccount_def checkCurrencySupport_def
  checkAccountFound_def checkAccountCurrencies_def checkInstructionCurrency_def checkFunds_def
  checkResolved_def

lemma validate_new_errors:
  "drop (length (errors parsed)) (val_errors (validateBusinessRules parsed accs)) =
     checkAccountIdFormat (debitAccount parsed)
     @ checkAccountIdFormat (creditAccount parsed)
     @ checkSameAccount parsed
     @ checkCurrencySupport parsed
     @ checkAccountFound (debitAccount parsed) (findAccount accs (debitAccount parsed))
     @ checkAccountFound (creditAccount parsed) (findAccount accs (creditAccount parsed))
     @ checkResolved parsed (findAccount accs (debitAccount parsed))
         (findAccount accs (creditAccount parsed))"
  by (simp add: validateBusinessRules_def Let_def)

lemma same_account_only_from_its_check:
  "filter (\<lambda>v. code v = SAME_ACCOUNT) (checkAccountIdFormat a) = []"
  "filter (\<lambda>v. code v = SAME_ACCOUNT) (checkCurrencySupport parsed) = []"
  "filter (\<lambda>v. code v = SAME_ACCOUNT) (checkAccountFound a found) = []"
  "filter (\<lambda>v. code v = SAME_ACCOUNT) (checkResolved parsed debit credit) = []"
  by (auto simp: check_defs code_defs split: option.splits)

subsection \<open>The same-account check (C8)\<close>

text \<open>
  C8: among the violations the validator adds to those of the parse result, there is a
  \<open>SAME_ACCOUNT\<close> violation exactly when the debit account id equals the credit account
  id, and then exactly one. The ids are compared as they are, null included: when both
  are null the violation fires.
\<close>

theorem same_account_violation_iff_ids_equal:
  "filter (\<lambda>v. code v = SAME_ACCOUNT)
     (drop (length (errors parsed)) (val_errors (validateBusinessRules parsed accs)))
   = (if debitAccount parsed = creditAccount parsed
      then [violation SAME_ACCOUNT MSG_SAME_ACCOUNT_ERROR] else [])
  \<and> violation SAME_ACCOUNT MSG_SAME_ACCOUNT_ERROR
      \<in> set (drop (length (errors (parsed\<lparr>debitAccount := None, creditAccount := None\<rparr>)))
                (val_errors (validateBusinessRules
                               (parsed\<lparr>debitAccount := None, creditAccount := None\<rparr>) accs)))"
proof -
  have one: "filter (\<lambda>v. code v = SAME_ACCOUNT)
     (drop (length (errors parsed)) (val_errors (validateBusinessRules parsed accs)))
   = (if debitAccount parsed = creditAccount parsed
      then [violation SAME_ACCOUNT MSG_SAME_ACCOUNT_ERROR] else [])"
    by (simp add: validate_new_errors same_account_only_from_its_check)
       (simp add: checkSameAccount_def)
  have "checkSameAccount (parsed\<lparr>debitAccount := None, creditAccount := None\<rparr>)
          = [violation SAME_ACCOUNT MSG_SAME_ACCOUNT_ERROR]"
    by (simp add: checkSameAccount_def)
  then have two: "violation SAME_ACCOUNT MSG_SAME_ACCOUNT_ERROR
      \<in> set (drop (length (errors (parsed\<lparr>debitAccount := None, creditAccount := None\<rparr>)))
                (val_errors (validateBusinessRules
                               (parsed\<lparr>debitAccount := None, creditAccount := None\<rparr>) accs)))"
    unfolding validate_new_errors by simp
  from one two show ?thesis by (rule conjI)
qed

subsection \<open>The two currency checks (C10)\<close>

lemma mismatch_only_from_resolved:
  "filter (\<lambda>v. code v = CURRENCY_MISMATCH) (checkAccountIdFormat a) = []"
  "filter (\<lambda>v. code v = CURRENCY_MISMATCH) (checkSameAccount parsed) = []"
  "filter (\<lambda>v. code v = CURRENCY_MISMATCH) (checkCurrencySupport parsed) = []"
  "filter (\<lambda>v. code v = CURRENCY_MISMATCH) (checkAccountFound a found) = []"
  "filter (\<lambda>v. code v = CURRENCY_MISMATCH) (checkFunds parsed d) = []"
  "filter (\<lambda>v. code v = CURRENCY_MISMATCH) (checkAccountCurrencies d c) = checkAccountCurrencies d c"
  "filter (\<lambda>v. code v = CURRENCY_MISMATCH) (checkInstructionCurrency parsed d)
     = checkInstructionCurrency parsed d"
  by (auto simp: check_defs code_defs split: option.splits)

lemma mismatch_violations:
  assumes "findAccount accs (debitAccount parsed) = Some d"
    and "findAccount accs (creditAccount parsed) = Some c"
  shows "filter (\<lambda>v. code v = CURRENCY_MISMATCH)
           (drop (length (errors parsed)) (val_errors (validateBusinessRules parsed accs)))
         = checkAccountCurrencies d c @ checkInstructionCurrency parsed d"
  by (simp add: validate_new_errors assms mismatch_only_from_resolved)
     (simp add: checkResolved_def mismatch_only_from_resolved)

text \<open>
  C10: let both accounts of a parsed instruction resolve. If the currency strings of the
  two account records differ, in letter case only or otherwise, the validator adds the
  \<open>CURRENCY_MISMATCH\<close> violation of the account-against-account check. The check of the
  instruction's currency against the debit account's currency compares in upper case:
  when the two agree up to letter case it adds nothing, so the only
  \<open>CURRENCY_MISMATCH\<close> violation then is the one of the account-against-account check,
  if that one fires.
\<close>

theorem account_currencies_compared_case_sensitively:
  assumes "findAccount accs (debitAccount (parseWithStateMachine tokens)) = Some d"
    and "findAccount accs (creditAccount (parseWithStateMachine tokens)) = Some c"
  shows "(acc_currency d \<noteq> acc_currency c \<longrightarrow>
            violation CURRENCY_MISMATCH MSG_CURRENCY_MISMATCH
              \<in> set (drop (length (errors (parseWithStateMachine tokens)))
                        (val_errors (validateBusinessRules (parseWithStateMachine tokens) accs))))
    \<and> (\<forall>cur. p_currency (parseWithStateMachine tokens) = Some cur
               \<and> toUpperCase (acc_currency d) = toUpperCase cur \<longrightarrow>
          filter (\<lambda>v. code v = CURRENCY_MISMATCH)
            (drop (length (errors (parseWithStateMachine tokens)))
               (val_errors (validateBusinessRules (parseWithStateMachine tokens) accs)))
          = (if acc_currency d \<noteq> acc_currency c
             then [violation CURRENCY_MISMATCH MSG_CURRENCY_MISMATCH] else []))"
proof -
  let ?p = "parseWithStateMachine tokens"
  let ?new = "drop (length (errors ?p)) (val_errors (validateBusinessRules ?p accs))"
  have f: "filter (\<lambda>v. code v = CURRENCY_MISMATCH) ?new
             = checkAccountCurrencies d c @ checkInstructionCurrency ?p d"
    by (rule mismatch_violations[OF assms])
  have one: "acc_currency d \<noteq> acc_currency c \<longrightarrow>
               violation CURRENCY_MISMATCH MSG_CURRENCY_MISMATCH \<in> set ?new"
  proof
    assume "acc_currency d \<noteq> acc_currency c"
    then have "violation CURRENCY_MISMATCH MSG_CURRENCY_MISMATCH
                 \<in> set (filter (\<lambda>v. code v = CURRENCY_MISMATCH) ?new)"
      unfolding f by (simp add: checkAccountCurrencies_def)
    then show "violation CURRENCY_MISMATCH MSG_CURRENCY_MISMATCH \<in> set ?new"
      by simp
  qed
  have two: "\<forall>cur. p_currency ?p = Some cur \<and> toUpperCase (acc_currency d) = toUpperCase cur \<longrightarrow>
          filter (\<lambda>v. code v = CURRENCY_MISMATCH) ?new
          = (if acc_currency d \<noteq> acc_currency c
             then [violation CURRENCY_MISMATCH MSG_CURRENCY_MISMATCH] else [])"
  proof (intro allI impI)
    fix cur
    assume a: "p_currency ?p = Some cur \<and> toUpperCase (acc_currency d) = toUpperCase cur"
    then have "toUpperCase cur = cur" using parsed_currency_upper by blast
    with a have "checkInstructionCurrency ?p d = []"
      by (simp add: checkInstructionCurrency_def)
    then show "filter (\<lambda>v. code v = CURRENCY_MISMATCH) ?new
          = (if acc_currency d \<noteq> acc_currency c
             then [violation CURRENCY_MISMATCH MSG_CURRENCY_MISMATCH] else [])"
      unfolding f by (simp add: checkAccountCurrencies_def)
  qed
  from one two show ?thesis by (rule conjI)
qed

theorem account_currencies_compared_case_sensitively_witness:
  "findAccount [\<lparr>acc_id = ''a'', acc_balance = 230, acc_currency = ''usd''\<rparr>,
                \<lparr>acc_id = ''b'', acc_balance = 300, acc_currency = ''USD''\<rparr>]
     (debitAccount (parseWithStateMachine
        (tokenize ''DEBIT 30 USD FROM ACCOUNT a FOR CREDIT TO ACCOUNT b'')))
     = Some \<lparr>acc_id = ''a'', acc_balance = 230, acc_currency = ''usd''\<rparr>
   \<and> findAccount [\<lparr>acc_id = ''a'', acc_balance = 230, acc_currency = ''usd''\<rparr>,
                \<lparr>acc_id = ''b'', acc_balance = 300, acc_currency = ''USD''\<rparr>]
     (creditAccount (parseWithStateMachine
        (tokenize ''DEBIT 30 USD FROM ACCOUNT a FOR CREDIT TO ACCOUNT b'')))
     = Some \<lparr>acc_id = ''b'', acc_balance = 300, acc_currency = ''USD''\<rparr>
   \<and> p_currency (parseWithStateMachine
        (tokenize ''DEBIT 30 USD FROM ACCOUNT a FOR CREDIT TO ACCOUNT b'')) = Some ''USD''
   \<and> toUpperCase ''usd'' = toUpperCase ''USD''
   \<and> filter (\<lambda>v. code v = CURRENCY_MISMATCH)
        (drop (length (errors (parseWithStateMachine
                 (tokenize ''DEBIT 30 USD FROM ACCOUNT a FOR CREDIT TO ACCOUNT b''))))
           (val_errors (validateBusinessRules (parseWithStateMachine
                 (tokenize ''DEBIT 30 USD FROM ACCOUNT a FOR CREDIT TO ACCOUNT b''))
              [\<lparr>acc_id = ''a'', acc_balance = 230, acc_currency = ''usd''\<rparr>,
               \<lparr>acc_id = ''b'', acc_balance = 300, acc_currency = ''USD''\<rparr>])))
       = [violation CURRENCY_MISMATCH MSG_CURRENCY_MISMATCH]"
proof -
  let ?accs = "[\<lparr>acc_id = ''a'', acc_balance = 230, acc_currency = ''usd''\<rparr>,
                \<lparr>acc_id = ''b'', acc_balance = 300, acc_currency = ''USD''\<rparr>]"
  let ?toks = "tokenize ''DEBIT 30 USD FROM ACCOUNT a FOR CREDIT TO ACCOUNT b''"
  have h1: "findAccount ?accs (debitAccount (parseWithStateMachine ?toks))
              = Some \<lparr>acc_id = ''a'', acc_balance = 230, acc_currency = ''usd''\<rparr>"
    by code_simp
  have h2: "findAccount ?accs (creditAccount (parseWithStateMachine ?toks))
              = Some \<lparr>acc_id = ''b'', acc_balance = 300, acc_currency = ''USD''\<rparr>"
    by code_simp
  have h3: "p_currency (parseWithStateMachine ?toks) = Some ''USD''"
    by code_simp
  have h4: "toUpperCase ''usd'' = toUpperCase ''USD''"
    by code_simp
  from account_currencies_compared_case_sensitively[OF h1 h2] h1 h2 h3 h4 show ?thesis by simp
qed

section \<open>What a parse without violations holds\<close>

lemma step_fieldsSet:
  "step st res t = Next st' res' \<Longrightarrow> t \<noteq> [] \<Longrightarrow> fieldsSet st res \<Longrightarrow> fieldsSet st' res'"
  by (cases st) (auto simp: fieldsSet_def Let_def push_def split: if_splits option.splits)

lemma whileLoop_fieldsSet:
  "whileLoop st res ts = Exhausted st' r \<Longrightarrow> [] \<notin> set ts \<Longrightarrow> fieldsSet st res
     \<Longrightarrow> fieldsSet st' r"
proof (induction ts arbitrary: st res)
  case Nil
  then show ?case by simp
next
  case (Cons t ts)
  show ?case
  proof (cases "st = COMPLETE")
    case True
    with Cons.prems show ?thesis by simp
  next
    case False
    with Cons.prems(1) obtain st1 r1 where s: "step st res t = Next st1 r1"
      and w: "whileLoop st1 r1 ts = Exhausted st' r"
      by (auto split: Step.splits)
    from Cons.prems(2) have "t \<noteq> []" "[] \<notin> set ts" by auto
    with Cons.IH[OF w] step_fieldsSet[OF s _ Cons.prems(3)] show ?thesis by blast
  qed
qed

text \<open>A return inside the loop always records a violation.\<close>

lemma step_Return_errors:
  "step st res t = Return r \<Longrightarrow>
     \<exists>v. r = push res v \<and> code v \<in> {MALFORMED, MISSING_KEYWORD, INVALID_ORDER}"
  by (cases st) (auto simp: Let_def split: if_splits option.splits)

lemma whileLoop_Returned_errors:
  "whileLoop st res ts = Returned r \<Longrightarrow> errors r \<noteq> []"
proof (induction ts arbitrary: st res)
  case Nil
  then show ?case by simp
next
  case (Cons t ts)
  then show ?case
    by (auto split: if_splits Step.splits dest!: step_Return_errors)
qed

lemma parse_ok_fields:
  assumes "errors (parseWithStateMachine tokens) = []" and "[] \<notin> set tokens"
  shows "\<exists>d c n. debitAccount (parseWithStateMachine tokens) = Some d \<and> d \<noteq> []
           \<and> creditAccount (parseWithStateMachine tokens) = Some c \<and> c \<noteq> []
           \<and> p_amount (parseWithStateMachine tokens) = Some n \<and> 0 < n"
proof (cases "whileLoop START initialResult tokens")
  case (Returned r)
  with assms(1) whileLoop_Returned_errors[OF Returned] show ?thesis
    by (simp add: parseWithStateMachine_def)
next
  case (Exhausted st r)
  have p: "parseWithStateMachine tokens = finish st r"
    by (simp add: parseWithStateMachine_def Exhausted)
  have inv: "fieldsSet st r"
    by (rule whileLoop_fieldsSet[OF Exhausted assms(2)]) (simp add: fieldsSet_def)
  from assms(1) have st: "st = SECOND_ACCOUNT \<or> st = DATE" and e: "errors r = []"
    and pr: "parseWithStateMachine tokens = r"
    using whileLoop_not_COMPLETE[OF Exhausted]
    by (auto simp: p finish_cases split: if_splits)
  from inv st e show ?thesis unfolding pr by (auto simp: fieldsSet_def)
qed

section \<open>Zero violations\<close>

lemma val_errors_append:
  "val_errors (validateBusinessRules parsed accs)
     = errors parsed @ drop (length (errors parsed)) (val_errors (validateBusinessRules parsed accs))"
  by (simp add: validateBusinessRules_def Let_def)

lemma val_accounts [simp]:
  "val_debitAccount (validateBusinessRules parsed accs) = findAccount accs (debitAccount parsed)"
  "val_creditAccount (validateBusinessRules parsed accs) = findAccount accs (creditAccount parsed)"
  by (simp_all add: validateBusinessRules_def Let_def)

lemma findAccount_Some:
  "findAccount accs w = Some a \<Longrightarrow> a \<in> set accs \<and> w = Some (acc_id a)"
  by (auto simp: findAccount_def find_Some_iff)

lemma tokenize_nonempty: "[] \<notin> set (tokenize s)"
  by (simp add: tokenize_def Let_def)

text \<open>What zero violations mean.\<close>

lemma validated_ok:
  assumes "val_errors (validateBusinessRules (parseWithStateMachine tokens) accs) = []"
    and "[] \<notin> set tokens"
  shows "\<exists>d c n. findAccount accs (debitAccount (parseWithStateMachine tokens)) = Some d
           \<and> findAccount accs (creditAccount (parseWithStateMachine tokens)) = Some c
           \<and> debitAccount (parseWithStateMachine tokens) = Some (acc_id d)
           \<and> creditAccount (parseWithStateMachine tokens) = Some (acc_id c)
           \<and> d \<in> set accs \<and> c \<in> set accs \<and> acc_id d \<noteq> acc_id c
           \<and> p_amount (parseWithStateMachine tokens) = Some n \<and> 0 < n"
proof -
  let ?p = "parseWithStateMachine tokens"
  from assms(1) have pe: "errors ?p = []"
    using val_errors_append[of ?p accs] by simp
  from assms(1) have new: "drop (length (errors ?p)) (val_errors (validateBusinessRules ?p accs)) = []"
    by simp
  from parse_ok_fields[OF pe assms(2)] obtain da ca n where
    f: "debitAccount ?p = Some da" "da \<noteq> []" "creditAccount ?p = Some ca" "ca \<noteq> []"
       "p_amount ?p = Some n" "0 < n"
    by blast
  from new have same: "checkSameAccount ?p = []"
    and fd: "checkAccountFound (debitAccount ?p) (findAccount accs (debitAccount ?p)) = []"
    and fc: "checkAccountFound (creditAccount ?p) (findAccount accs (creditAccount ?p)) = []"
    unfolding validate_new_errors by simp_all
  from fd f obtain d where d: "findAccount accs (debitAccount ?p) = Some d"
    by (auto simp: checkAccountFound_def split: if_splits)
  from fc f obtain c where c: "findAccount accs (creditAccount ?p) = Some c"
    by (auto simp: checkAccountFound_def split: if_splits)
  from same have "debitAccount ?p \<noteq> creditAccount ?p"
    by (auto simp: checkSameAccount_def split: if_splits)
  with findAccount_Some[OF d] findAccount_Some[OF c] d c f show ?thesis
    by auto
qed

lemma processedAccounts_resolved:
  assumes "val_debitAccount validation = Some d" and "val_creditAccount validation = Some c"
  shows "processedAccounts isPending parsed validation accs =
           Some (map (\<lambda>a. accountView a
                        (if isPending then acc_balance a
                         else if acc_id a = acc_id d then acc_balance a - amountOf parsed
                         else acc_balance a + amountOf parsed))
                   (filter (\<lambda>a. acc_id a = acc_id d \<or> acc_id a = acc_id c) accs))"
  by (induction accs) (simp_all add: assms)


lemma length_filter_disj:
  "(\<forall>a. \<not> (P a \<and> Q a)) \<Longrightarrow>
     length (filter (\<lambda>a. P a \<or> Q a) xs) = length (filter P xs) + length (filter Q xs)"
  by (induction xs) auto

lemma filter_distinct_key:
  "distinct (map f xs) \<Longrightarrow> x \<in> set xs \<Longrightarrow> filter (\<lambda>a. f a = f x) xs = [x]"
proof (induction xs)
  case Nil
  then show ?case by simp
next
  case (Cons y ys)
  show ?case
  proof (cases "x = y")
    case True
    from Cons.prems(1) have "f y \<notin> f ` set ys" by simp
    then have "\<forall>a \<in> set ys. f a \<noteq> f y" by (metis imageI)
    then have "filter (\<lambda>a. f a = f y) ys = []" by (simp add: filter_empty_conv)
    with True show ?thesis by simp
  next
    case False
    with Cons.prems have "x \<in> set ys" "f y \<noteq> f x" by auto
    with Cons show ?thesis by simp
  qed
qed

section \<open>The settlement engine (C1, C2)\<close>

lemma process_settled:
  assumes ok: "val_errors (validateBusinessRules (parseWithStateMachine (tokenize instruction)) accs) = []"
    and d: "findAccount accs (debitAccount (parseWithStateMachine (tokenize instruction))) = Some d"
    and c: "findAccount accs (creditAccount (parseWithStateMachine (tokenize instruction))) = Some c"
    and n: "p_amount (parseWithStateMachine (tokenize instruction)) = Some n"
    and pend: "pend = (truthyString (executeBy (parseWithStateMachine (tokenize instruction)))
                 \<and> (case executeBy (parseWithStateMachine (tokenize instruction)) of
                       None \<Rightarrow> False | Some dt \<Rightarrow> isFutureDate today dt))"
  shows "processInstruction today accs instruction =
     \<lparr>r_type = p_type (parseWithStateMachine (tokenize instruction)),
      r_amount = Some n,
      r_currency = p_currency (parseWithStateMachine (tokenize instruction)),
      debit_account = debitAccount (parseWithStateMachine (tokenize instruction)),
      credit_account = creditAccount (parseWithStateMachine (tokenize instruction)),
      execute_by = executeBy (parseWithStateMachine (tokenize instruction)),
      status = (if pend then ''pending'' else ''successful''),
      status_reason = (if pend then MSG_TRANSACTION_PENDING else MSG_TRANSACTION_SUCCESSFUL),
      status_code = (if pend then PENDING else SUCCESSFUL),
      accounts = map (\<lambda>a. accountView a
                        (if pend then acc_balance a
                         else if acc_id a = acc_id d then acc_balance a - n
                         else acc_balance a + n))
                   (filter (\<lambda>a. acc_id a = acc_id d \<or> acc_id a = acc_id c) accs)\<rparr>"
proof -
  let ?p = "parseWithStateMachine (tokenize instruction)"
  let ?v = "validateBusinessRules ?p accs"
  have vd: "val_debitAccount ?v = Some d" and vc: "val_creditAccount ?v = Some c"
    using d c by simp_all
  have a: "amountOf ?p = n" by (simp add: amountOf_def n)
  show ?thesis
    unfolding processInstruction_def Let_def
    by (simp only: ok list.size if_False less_irrefl pend[symmetric]
          processedAccounts_resolved[OF vd vc] a option.case n)
qed

lemma isFutureDate_nonempty: "isFutureDate today dt \<Longrightarrow> dt \<noteq> []"
  by (auto simp: isFutureDate_def utcDateOf_def isValidDateFormat_def)

text \<open>For calendar dates of the years from 100 on, \<open>isFutureDate\<close> is the strict
  comparison of year, month and day.\<close>

lemma isFutureDate_calendar:
  assumes "utcDateOf s = Some (y, m, d)" and "99 < y" and "d \<le> daysInMonth y m"
    and "today = (ty, tm, td)" and "99 < ty" and "td \<le> daysInMonth ty tm"
  shows "isFutureDate today s = (ty < y \<or> (ty = y \<and> (tm < m \<or> (tm = m \<and> td < d))))"
  using assms
  by (simp add: isFutureDate_def localMidnight_def rollOver_def dateLess_def Let_def)




text \<open>
  C2: let an instruction parse and validate with zero violations, and let its execution
  date be set and in the future. Then the response has status \<open>pending\<close> and code
  \<open>AP02\<close>, and its account views are those of the involved input accounts, in input
  order, each with balance and \<open>balance_before\<close> equal to the input balance. The
  comparison is between calendar dates and strict: a date that is today's date is not in
  the future, and for calendar dates of the years from 100 on a date is in the future
  exactly when its (year, month, day) is greater than today's.
\<close>

theorem settlement_pending:
  assumes ok: "val_errors (validateBusinessRules
                  (parseWithStateMachine (tokenize instruction)) accs) = []"
    and ex: "executeBy (parseWithStateMachine (tokenize instruction)) = Some dt"
    and fut: "isFutureDate today dt"
  shows "status (processInstruction today accs instruction) = ''pending''
    \<and> status_code (processInstruction today accs instruction) = ''AP02''
    \<and> (\<exists>d c.
          findAccount accs (debitAccount (parseWithStateMachine (tokenize instruction))) = Some d
        \<and> findAccount accs (creditAccount (parseWithStateMachine (tokenize instruction))) = Some c
        \<and> debit_account (processInstruction today accs instruction) = Some (acc_id d)
        \<and> credit_account (processInstruction today accs instruction) = Some (acc_id c)
        \<and> accounts (processInstruction today accs instruction)
            = map (\<lambda>a. \<lparr>v_id = acc_id a, v_balance = acc_balance a,
                          balance_before = acc_balance a,
                          v_currency = toUpperCase (acc_currency a)\<rparr>)
                (filter (\<lambda>a. acc_id a = acc_id d \<or> acc_id a = acc_id c) accs)
        \<and> (\<exists>vd vc. vd \<in> set (accounts (processInstruction today accs instruction))
            \<and> vc \<in> set (accounts (processInstruction today accs instruction))
            \<and> v_id vd = acc_id d \<and> v_balance vd = acc_balance d
            \<and> balance_before vd = acc_balance d
            \<and> v_id vc = acc_id c \<and> v_balance vc = acc_balance c
            \<and> balance_before vc = acc_balance c))
    \<and> (\<forall>v \<in> set (accounts (processInstruction today accs instruction)).
           v_balance v = balance_before v
           \<and> (\<exists>a \<in> set accs. v_id v = acc_id a \<and> v_balance v = acc_balance a))
    \<and> (\<forall>s. utcDateOf s = Some today \<longrightarrow> \<not> isFutureDate today s)
    \<and> (\<forall>s y m d ty tm td.
          utcDateOf s = Some (y, m, d) \<and> 99 < y \<and> d \<le> daysInMonth y m
          \<and> today = (ty, tm, td) \<and> 99 < ty \<and> td \<le> daysInMonth ty tm
          \<longrightarrow> isFutureDate today s
                = (ty < y \<or> (ty = y \<and> (tm < m \<or> (tm = m \<and> td < d)))))"
proof -
  let ?p = "parseWithStateMachine (tokenize instruction)"
  let ?R = "processInstruction today accs instruction"
  from validated_ok[OF ok tokenize_nonempty] obtain d c n where
    f: "findAccount accs (debitAccount ?p) = Some d" "findAccount accs (creditAccount ?p) = Some c"
       "debitAccount ?p = Some (acc_id d)" "creditAccount ?p = Some (acc_id c)"
       "d \<in> set accs" "c \<in> set accs" "acc_id d \<noteq> acc_id c" "p_amount ?p = Some n" "0 < n"
    by blast
  have "dt \<noteq> []" using fut by (rule isFutureDate_nonempty)
  then have np: "True = (truthyString (executeBy ?p)
                 \<and> (case executeBy ?p of None \<Rightarrow> False | Some dt \<Rightarrow> isFutureDate today dt))"
    using ex fut by (simp add: truthyString_def)
  note R = process_settled[OF ok f(1) f(2) f(8) np]
  have st: "status ?R = ''pending''" and sc: "status_code ?R = ''AP02''"
    and da: "debit_account ?R = Some (acc_id d)" and ca: "credit_account ?R = Some (acc_id c)"
    and acc: "accounts ?R = map (\<lambda>a. \<lparr>v_id = acc_id a, v_balance = acc_balance a,
                          balance_before = acc_balance a,
                          v_currency = toUpperCase (acc_currency a)\<rparr>)
                (filter (\<lambda>a. acc_id a = acc_id d \<or> acc_id a = acc_id c) accs)"
    unfolding R by (simp_all add: PENDING_def f accountView_def)
  let ?V = "\<lambda>a. \<lparr>v_id = acc_id a, v_balance = acc_balance a, balance_before = acc_balance a,
                  v_currency = toUpperCase (acc_currency a)\<rparr>"
  have "?V d \<in> set (accounts ?R)" "?V c \<in> set (accounts ?R)"
    unfolding acc using f(5,6) by auto
  then have views: "\<exists>vd vc. vd \<in> set (accounts ?R) \<and> vc \<in> set (accounts ?R)
            \<and> v_id vd = acc_id d \<and> v_balance vd = acc_balance d
            \<and> balance_before vd = acc_balance d
            \<and> v_id vc = acc_id c \<and> v_balance vc = acc_balance c
            \<and> balance_before vc = acc_balance c"
    by (intro exI[of _ "?V d"] exI[of _ "?V c"]) simp
  have all: "\<forall>v \<in> set (accounts ?R). v_balance v = balance_before v
           \<and> (\<exists>a \<in> set accs. v_id v = acc_id a \<and> v_balance v = acc_balance a)"
    unfolding acc by auto
  have today: "\<forall>s. utcDateOf s = Some today \<longrightarrow> \<not> isFutureDate today s"
    by (auto simp: isFutureDate_def Let_def dateLess_def split: prod.splits)
  have cal: "\<forall>s y m d ty tm td.
          utcDateOf s = Some (y, m, d) \<and> 99 < y \<and> d \<le> daysInMonth y m
          \<and> today = (ty, tm, td) \<and> 99 < ty \<and> td \<le> daysInMonth ty tm
          \<longrightarrow> isFutureDate today s
                = (ty < y \<or> (ty = y \<and> (tm < m \<or> (tm = m \<and> td < d))))"
    by (intro allI impI) (elim conjE, rule isFutureDate_calendar)
  have main: "\<exists>d c.
          findAccount accs (debitAccount ?p) = Some d
        \<and> findAccount accs (creditAccount ?p) = Some c
        \<and> debit_account ?R = Some (acc_id d)
        \<and> credit_account ?R = Some (acc_id c)
        \<and> accounts ?R
            = map (\<lambda>a. \<lparr>v_id = acc_id a, v_balance = acc_balance a,
                          balance_before = acc_balance a,
                          v_currency = toUpperCase (acc_currency a)\<rparr>)
                (filter (\<lambda>a. acc_id a = acc_id d \<or> acc_id a = acc_id c) accs)
        \<and> (\<exists>vd vc. vd \<in> set (accounts ?R)
            \<and> vc \<in> set (accounts ?R)
            \<and> v_id vd = acc_id d \<and> v_balance vd = acc_balance d
            \<and> balance_before vd = acc_balance d
            \<and> v_id vc = acc_id c \<and> v_balance vc = acc_balance c
            \<and> balance_before vc = acc_balance c)"
    using da ca acc views f(1,2) by blast
  from st sc main all today cal show ?thesis by (intro conjI)
qed

theorem settlement_pending_witness:
  "val_errors (validateBusinessRules
      (parseWithStateMachine
         (tokenize ''CREDIT 300 NGN TO ACCOUNT acc-002 FOR DEBIT FROM ACCOUNT acc-001 ON 2026-12-31''))
      [\<lparr>acc_id = ''acc-001'', acc_balance = 1000, acc_currency = ''NGN''\<rparr>,
       \<lparr>acc_id = ''acc-002'', acc_balance = 500, acc_currency = ''NGN''\<rparr>]) = []
   \<and> executeBy (parseWithStateMachine
         (tokenize ''CREDIT 300 NGN TO ACCOUNT acc-002 FOR DEBIT FROM ACCOUNT acc-001 ON 2026-12-31''))
       = Some ''2026-12-31''
   \<and> isFutureDate (2026, 10, 3) ''2026-12-31''
   \<and> status (processInstruction (2026, 10, 3)
        [\<lparr>acc_id = ''acc-001'', acc_balance = 1000, acc_currency = ''NGN''\<rparr>,
         \<lparr>acc_id = ''acc-002'', acc_balance = 500, acc_currency = ''NGN''\<rparr>]
        ''CREDIT 300 NGN TO ACCOUNT acc-002 FOR DEBIT FROM ACCOUNT acc-001 ON 2026-12-31'')
       = ''pending''
   \<and> map v_balance (accounts (processInstruction (2026, 10, 3)
        [\<lparr>acc_id = ''acc-001'', acc_balance = 1000, acc_currency = ''NGN''\<rparr>,
         \<lparr>acc_id = ''acc-002'', acc_balance = 500, acc_currency = ''NGN''\<rparr>]
        ''CREDIT 300 NGN TO ACCOUNT acc-002 FOR DEBIT FROM ACCOUNT acc-001 ON 2026-12-31''))
       = [1000, 500]
   \<and> utcDateOf ''2026-11-03'' = Some (2026, 10, 3)
   \<and> \<not> isFutureDate (2026, 10, 3) ''2026-11-03''"
proof -
  let ?accs = "[\<lparr>acc_id = ''acc-001'', acc_balance = 1000, acc_currency = ''NGN''\<rparr>,
       \<lparr>acc_id = ''acc-002'', acc_balance = 500, acc_currency = ''NGN''\<rparr>]"
  let ?i = "''CREDIT 300 NGN TO ACCOUNT acc-002 FOR DEBIT FROM ACCOUNT acc-001 ON 2026-12-31''"
  have h1: "val_errors (validateBusinessRules (parseWithStateMachine (tokenize ?i)) ?accs) = []"
    by code_simp
  have h2: "executeBy (parseWithStateMachine (tokenize ?i)) = Some ''2026-12-31''"
    by code_simp
  have h3: "isFutureDate (2026, 10, 3) ''2026-12-31''"
    by code_simp
  have h4: "utcDateOf ''2026-11-03'' = Some (2026, 10, 3)"
    by code_simp
  have h5: "map v_balance (accounts (processInstruction (2026, 10, 3) ?accs ?i)) = [1000, 500]"
    by code_simp
  from settlement_pending[OF h1 h2 h3] h1 h2 h3 h4 h5 show ?thesis by blast
qed

section \<open>Codes the service can record\<close>

lemma business_codes:
  "v \<in> set (drop (length (errors parsed)) (val_errors (validateBusinessRules parsed accs)))
     \<Longrightarrow> code v \<in> {INVALID_ACCOUNT_ID, SAME_ACCOUNT, UNSUPPORTED_CURRENCY, ACCOUNT_NOT_FOUND,
                     CURRENCY_MISMATCH, INSUFFICIENT_FUNDS}"
  unfolding validate_new_errors
  by (auto simp: check_defs split: option.splits if_splits)

lemma whileLoop_codes:
  "v \<in> set (errors (case whileLoop st res ts of Returned r \<Rightarrow> r | Exhausted s r \<Rightarrow> finish s r))
     \<Longrightarrow> v \<in> set (errors res)
         \<or> code v \<in> {MALFORMED, MISSING_KEYWORD, INVALID_ORDER, INVALID_AMOUNT, INVALID_DATE}"
proof (induction ts arbitrary: st res)
  case Nil
  then show ?case by (auto simp: finish_cases split: if_splits)
next
  case (Cons t ts)
  show ?case
  proof (cases "st = COMPLETE")
    case True
    with Cons.prems show ?thesis by (auto simp: finish_cases split: if_splits)
  next
    case False
    show ?thesis
    proof (cases "step st res t")
      case (Return r)
      from step_Return_errors[OF Return] Cons.prems False Return show ?thesis by auto
    next
      case (Next st1 r1)
      with Cons.prems False
      have "v \<in> set (errors (case whileLoop st1 r1 ts of Returned r \<Rightarrow> r
                                | Exhausted s r \<Rightarrow> finish s r))"
        by simp
      from Cons.IH[OF this] step_Next_errors[OF Next] show ?thesis by auto
    qed
  qed
qed

lemma parse_codes:
  "v \<in> set (errors (parseWithStateMachine tokens)) \<Longrightarrow>
     code v \<in> {MALFORMED, MISSING_KEYWORD, INVALID_ORDER, INVALID_AMOUNT, INVALID_DATE}"
  using whileLoop_codes[of v START initialResult tokens]
  by (simp add: parseWithStateMachine_def initialResult_def)

lemma service_codes_mapped:
  assumes "v \<in> set (val_errors (validateBusinessRules (parseWithStateMachine tokens) accs))"
  shows "priority (code v) \<noteq> None"
proof -
  let ?p = "parseWithStateMachine tokens"
  from assms have "v \<in> set (errors ?p)
      \<or> v \<in> set (drop (length (errors ?p)) (val_errors (validateBusinessRules ?p accs)))"
    by (subst (asm) val_errors_append) (simp only: set_append Un_iff)
  then have "code v \<in> {MALFORMED, MISSING_KEYWORD, INVALID_ORDER, INVALID_AMOUNT, INVALID_DATE,
       INVALID_ACCOUNT_ID, SAME_ACCOUNT, UNSUPPORTED_CURRENCY, ACCOUNT_NOT_FOUND,
       CURRENCY_MISMATCH, INSUFFICIENT_FUNDS}"
    using parse_codes[of v tokens] business_codes[of v ?p accs] by auto
  then show ?thesis
    by (auto simp: priority_def code_defs)
qed

lemma primary_exists:
  assumes "val_errors (validateBusinessRules (parseWithStateMachine tokens) accs) \<noteq> []"
  shows "\<exists>e. selectPrimaryError (val_errors (validateBusinessRules (parseWithStateMachine tokens) accs))
               = Some e
             \<and> e \<in> set (val_errors (validateBusinessRules (parseWithStateMachine tokens) accs))"
proof -
  let ?es = "val_errors (validateBusinessRules (parseWithStateMachine tokens) accs)"
  from assms obtain v where v: "v \<in> set ?es" by (cases ?es) auto
  then have "\<exists>e \<in> set ?es. priority (code e) \<noteq> None"
    using service_codes_mapped by blast
  from selectPrimaryError_Some[OF this] show ?thesis by auto
qed

lemma process_failed:
  assumes "selectPrimaryError (val_errors (validateBusinessRules
             (parseWithStateMachine (tokenize instruction)) accs)) = Some e"
  shows "processInstruction today accs instruction =
     (if code e = MALFORMED \<or> code e = MISSING_KEYWORD \<or> code e = INVALID_ORDER
      then nullResponse (message e) (code e)
      else \<lparr>r_type = p_type (parseWithStateMachine (tokenize instruction)),
            r_amount = p_amount (parseWithStateMachine (tokenize instruction)),
            r_currency = p_currency (parseWithStateMachine (tokenize instruction)),
            debit_account = debitAccount (parseWithStateMachine (tokenize instruction)),
            credit_account = creditAccount (parseWithStateMachine (tokenize instruction)),
            execute_by = executeBy (parseWithStateMachine (tokenize instruction)),
            status = ''failed'', status_reason = message e, status_code = code e,
            accounts = involvedAccounts (parseWithStateMachine (tokenize instruction)) accs\<rparr>)"
proof -
  have "val_errors (validateBusinessRules (parseWithStateMachine (tokenize instruction)) accs) \<noteq> []"
    using assms by (auto simp: selectPrimaryError_def)
  then show ?thesis
    unfolding processInstruction_def Let_def
    by (simp only: assms length_greater_0_conv if_True option.case not_False_eq_True simp_thms)
qed

section \<open>The two classes of failure (C4)\<close>

text \<open>
  C4: let \<open>e\<close> be the primary error selected for an input. If its code is \<open>SY03\<close>,
  \<open>SY01\<close> or \<open>SY02\<close>, the response has type, amount, currency, both account ids and the
  date null and no account views. For any other code the response carries the parsed
  type, amount, currency, account ids and date, and one view for every input account
  whose id is the parsed debit or credit id, in input order, with balance and
  \<open>balance_before\<close> equal to the input balance. In both cases the status is \<open>failed\<close>
  and the status code is the code of \<open>e\<close>.
\<close>

theorem failure_response_shape:
  assumes "selectPrimaryError (val_errors (validateBusinessRules
             (parseWithStateMachine (tokenize instruction)) accs)) = Some e"
  shows "(code e = ''SY03'' \<or> code e = ''SY01'' \<or> code e = ''SY02'' \<longrightarrow>
            r_type (processInstruction today accs instruction) = None
          \<and> r_amount (processInstruction today accs instruction) = None
          \<and> r_currency (processInstruction today accs instruction) = None
          \<and> debit_account (processInstruction today accs instruction) = None
          \<and> credit_account (processInstruction today accs instruction) = None
          \<and> execute_by (processInstruction today accs instruction) = None
          \<and> accounts (processInstruction today accs instruction) = []
          \<and> status (processInstruction today accs instruction) = ''failed''
          \<and> status_code (processInstruction today accs instruction) = code e)
    \<and> (\<not> (code e = ''SY03'' \<or> code e = ''SY01'' \<or> code e = ''SY02'') \<longrightarrow>
            r_type (processInstruction today accs instruction)
              = p_type (parseWithStateMachine (tokenize instruction))
          \<and> r_amount (processInstruction today accs instruction)
              = p_amount (parseWithStateMachine (tokenize instruction))
          \<and> r_currency (processInstruction today accs instruction)
              = p_currency (parseWithStateMachine (tokenize instruction))
          \<and> debit_account (processInstruction today accs instruction)
              = debitAccount (parseWithStateMachine (tokenize instruction))
          \<and> credit_account (processInstruction today accs instruction)
              = creditAccount (parseWithStateMachine (tokenize instruction))
          \<and> execute_by (processInstruction today accs instruction)
              = executeBy (parseWithStateMachine (tokenize instruction))
          \<and> status (processInstruction today accs instruction) = ''failed''
          \<and> status_code (processInstruction today accs instruction) = code e
          \<and> accounts (processInstruction today accs instruction)
              = map (\<lambda>a. \<lparr>v_id = acc_id a, v_balance = acc_balance a,
                            balance_before = acc_balance a,
                            v_currency = toUpperCase (acc_currency a)\<rparr>)
                  (filter (\<lambda>a. Some (acc_id a) = debitAccount (parseWithStateMachine (tokenize instruction))
                              \<or> Some (acc_id a) = creditAccount (parseWithStateMachine (tokenize instruction)))
                     accs)
          \<and> (\<forall>v \<in> set (accounts (processInstruction today accs instruction)).
                 v_balance v = balance_before v
                 \<and> (\<exists>a \<in> set accs. v_id v = acc_id a \<and> v_balance v = acc_balance a)))"
proof -
  note R = process_failed[OF assms, of today]
  have null: "code e = ''SY03'' \<or> code e = ''SY01'' \<or> code e = ''SY02'' \<Longrightarrow>
     processInstruction today accs instruction = nullResponse (message e) (code e)"
    unfolding R by (simp add: code_defs)
  have echo: "\<not> (code e = ''SY03'' \<or> code e = ''SY01'' \<or> code e = ''SY02'') \<Longrightarrow>
     processInstruction today accs instruction =
       \<lparr>r_type = p_type (parseWithStateMachine (tokenize instruction)),
            r_amount = p_amount (parseWithStateMachine (tokenize instruction)),
            r_currency = p_currency (parseWithStateMachine (tokenize instruction)),
            debit_account = debitAccount (parseWithStateMachine (tokenize instruction)),
            credit_account = creditAccount (parseWithStateMachine (tokenize instruction)),
            execute_by = executeBy (parseWithStateMachine (tokenize instruction)),
            status = ''failed'', status_reason = message e, status_code = code e,
            accounts = involvedAccounts (parseWithStateMachine (tokenize instruction)) accs\<rparr>"
    unfolding R by (simp add: code_defs)
  show ?thesis
  proof (intro conjI impI)
    assume a: "code e = ''SY03'' \<or> code e = ''SY01'' \<or> code e = ''SY02''"
    note N = null[OF a]
    show "r_type (processInstruction today accs instruction) = None"
      "r_amount (processInstruction today accs instruction) = None"
      "r_currency (processInstruction today accs instruction) = None"
      "debit_account (processInstruction today accs instruction) = None"
      "credit_account (processInstruction today accs instruction) = None"
      "execute_by (processInstruction today accs instruction) = None"
      "accounts (processInstruction today accs instruction) = []"
      "status (processInstruction today accs instruction) = ''failed''"
      "status_code (processInstruction today accs instruction) = code e"
      unfolding N by (simp_all add: nullResponse_def)
  next
    assume a: "\<not> (code e = ''SY03'' \<or> code e = ''SY01'' \<or> code e = ''SY02'')"
    note E = echo[OF a]
    show "r_type (processInstruction today accs instruction)
              = p_type (parseWithStateMachine (tokenize instruction))"
      "r_amount (processInstruction today accs instruction)
              = p_amount (parseWithStateMachine (tokenize instruction))"
      "r_currency (processInstruction today accs instruction)
              = p_currency (parseWithStateMachine (tokenize instruction))"
      "debit_account (processInstruction today accs instruction)
              = debitAccount (parseWithStateMachine (tokenize instruction))"
      "credit_account (processInstruction today accs instruction)
              = creditAccount (parseWithStateMachine (tokenize instruction))"
      "execute_by (processInstruction today accs instruction)
              = executeBy (parseWithStateMachine (tokenize instruction))"
      "status (processInstruction today accs instruction) = ''failed''"
      "status_code (processInstruction today accs instruction) = code e"
      unfolding E by simp_all
    show "accounts (processInstruction today accs instruction)
              = map (\<lambda>a. \<lparr>v_id = acc_id a, v_balance = acc_balance a,
                            balance_before = acc_balance a,
                            v_currency = toUpperCase (acc_currency a)\<rparr>)
                  (filter (\<lambda>a. Some (acc_id a) = debitAccount (parseWithStateMachine (tokenize instruction))
                              \<or> Some (acc_id a) = creditAccount (parseWithStateMachine (tokenize instruction)))
                     accs)"
      unfolding E by (simp add: involvedAccounts_def accountView_def)
    show "\<forall>v \<in> set (accounts (processInstruction today accs instruction)).
                 v_balance v = balance_before v
                 \<and> (\<exists>a \<in> set accs. v_id v = acc_id a \<and> v_balance v = acc_balance a)"
      unfolding E by (auto simp: involvedAccounts_def accountView_def)
  qed
qed

theorem failure_response_shape_witness:
  "selectPrimaryError (val_errors (validateBusinessRules
      (parseWithStateMachine (tokenize ''DEBIT 500 USD FROM ACCOUNT a FOR CREDIT TO ACCOUNT b''))
      [\<lparr>acc_id = ''a'', acc_balance = 100, acc_currency = ''USD''\<rparr>,
       \<lparr>acc_id = ''b'', acc_balance = 500, acc_currency = ''USD''\<rparr>]))
     = Some \<lparr>code = ''AC01'',
             message = ''Insufficient funds in debit account: has 100 USD, needs 500''\<rparr>
   \<and> status_code (processInstruction (2026, 10, 3)
        [\<lparr>acc_id = ''a'', acc_balance = 100, acc_currency = ''USD''\<rparr>,
         \<lparr>acc_id = ''b'', acc_balance = 500, acc_currency = ''USD''\<rparr>]
        ''DEBIT 500 USD FROM ACCOUNT a FOR CREDIT TO ACCOUNT b'') = ''AC01''
   \<and> accounts (processInstruction (2026, 10, 3)
        [\<lparr>acc_id = ''a'', acc_balance = 100, acc_currency = ''USD''\<rparr>,
         \<lparr>acc_id = ''b'', acc_balance = 500, acc_currency = ''USD''\<rparr>]
        ''DEBIT 500 USD FROM ACCOUNT a FOR CREDIT TO ACCOUNT b'')
      = [\<lparr>v_id = ''a'', v_balance = 100, balance_before = 100, v_currency = ''USD''\<rparr>,
         \<lparr>v_id = ''b'', v_balance = 500, balance_before = 500, v_currency = ''USD''\<rparr>]"
proof -
  let ?accs = "[\<lparr>acc_id = ''a'', acc_balance = 100, acc_currency = ''USD''\<rparr>,
       \<lparr>acc_id = ''b'', acc_balance = 500, acc_currency = ''USD''\<rparr>]"
  let ?i = "''DEBIT 500 USD FROM ACCOUNT a FOR CREDIT TO ACCOUNT b''"
  have h: "selectPrimaryError (val_errors (validateBusinessRules
      (parseWithStateMachine (tokenize ?i)) ?accs))
     = Some \<lparr>code = ''AC01'',
             message = ''Insufficient funds in debit account: has 100 USD, needs 500''\<rparr>"
    by code_simp
  have d: "debitAccount (parseWithStateMachine (tokenize ?i)) = Some ''a''"
    and c: "creditAccount (parseWithStateMachine (tokenize ?i)) = Some ''b''"
    by code_simp+
  have u: "toUpperCase ''USD'' = ''USD''" by code_simp
  from failure_response_shape[OF h, of "(2026, 10, 3)"] h show ?thesis
    by (simp add: d c u)
qed

section \<open>The accounts of a response (C5)\<close>

lemma length_filter_key_le:
  "distinct (map f xs) \<Longrightarrow> length (filter (\<lambda>a. Some (f a) = w) xs) \<le> 1"
proof (induction xs)
  case Nil
  then show ?case by simp
next
  case (Cons y ys)
  show ?case
  proof (cases "Some (f y) = w")
    case True
    from Cons.prems have "f y \<notin> f ` set ys" by simp
    then have "\<forall>a \<in> set ys. \<not> Some (f a) = w" using True by (metis imageI option.inject)
    then have "filter (\<lambda>a. Some (f a) = w) ys = []" by (simp add: filter_empty_conv)
    with True show ?thesis by simp
  next
    case False
    with Cons show ?thesis by simp
  qed
qed

lemma length_filter_or_le:
  "length (filter (\<lambda>a. P a \<or> Q a) xs) \<le> length (filter P xs) + length (filter Q xs)"
  by (induction xs) auto

lemma involved_le_2:
  assumes "distinct (map acc_id accs)"
  shows "length (filter (\<lambda>a. Some (acc_id a) = x \<or> Some (acc_id a) = y) accs) \<le> 2"
proof -
  have "length (filter (\<lambda>a. Some (acc_id a) = x \<or> Some (acc_id a) = y) accs)
          \<le> length (filter (\<lambda>a. Some (acc_id a) = x) accs)
            + length (filter (\<lambda>a. Some (acc_id a) = y) accs)"
    by (rule length_filter_or_le)
  with length_filter_key_le[OF assms, of x] length_filter_key_le[OF assms, of y]
  show ?thesis by linarith
qed

lemma settled_accounts:
  assumes ok: "val_errors (validateBusinessRules (parseWithStateMachine (tokenize instruction)) accs) = []"
    and d: "findAccount accs (debitAccount (parseWithStateMachine (tokenize instruction))) = Some d"
    and c: "findAccount accs (creditAccount (parseWithStateMachine (tokenize instruction))) = Some c"
    and n: "p_amount (parseWithStateMachine (tokenize instruction)) = Some n"
  shows "accounts (processInstruction today accs instruction)
              = map (\<lambda>a. accountView a
                        (if (truthyString (executeBy (parseWithStateMachine (tokenize instruction)))
                               \<and> (case executeBy (parseWithStateMachine (tokenize instruction)) of
                                     None \<Rightarrow> False
                                   | Some dt \<Rightarrow> isFutureDate today dt))
                         then acc_balance a
                         else if acc_id a = acc_id d then acc_balance a - n
                         else acc_balance a + n))
                  (filter (\<lambda>a. acc_id a = acc_id d \<or> acc_id a = acc_id c) accs)"
  unfolding process_settled[OF ok d c n refl, of today] by (simp only: Response.simps)

lemma failed_accounts_shape:
  assumes "val_errors (validateBusinessRules (parseWithStateMachine (tokenize instruction)) accs) \<noteq> []"
  shows "accounts (processInstruction today accs instruction) = []
         \<or> accounts (processInstruction today accs instruction)
            = involvedAccounts (parseWithStateMachine (tokenize instruction)) accs"
proof -
  from primary_exists[OF assms] obtain e where
    e: "selectPrimaryError (val_errors (validateBusinessRules
          (parseWithStateMachine (tokenize instruction)) accs)) = Some e"
    by blast
  show ?thesis
  proof (cases "code e = MALFORMED \<or> code e = MISSING_KEYWORD \<or> code e = INVALID_ORDER")
    case True
    then have "processInstruction today accs instruction = nullResponse (message e) (code e)"
      unfolding process_failed[OF e] by (simp only: if_True)
    then show ?thesis by (simp add: nullResponse_def)
  next
    case False
    then have "accounts (processInstruction today accs instruction)
            = involvedAccounts (parseWithStateMachine (tokenize instruction)) accs"
      unfolding process_failed[OF e] by (simp only: if_False Response.simps)
    then show ?thesis by simp
  qed
qed

text \<open>
  C5, as stated: the accounts field of every response holds 0 or exactly 2 entries. This
  fails on the parseable-but-invalid failures: for the single account \<open>a\<close> and an
  instruction from \<open>a\<close> to an unknown account \<open>xyz\<close> (code \<open>AC03\<close>) the response holds
  one view, that of \<open>a\<close>.
\<close>

theorem response_accounts_one_entry:
  "length (accounts (processInstruction (2026, 10, 3)
        [\<lparr>acc_id = ''a'', acc_balance = 500, acc_currency = ''USD''\<rparr>]
        ''DEBIT 100 USD FROM ACCOUNT a FOR CREDIT TO ACCOUNT xyz'')) = 1"
  by code_simp

text \<open>
  C5, amended: the accounts field of every response is empty, or it holds one view for
  every input account whose id is the parsed debit or credit account id, in input-list
  order, each with \<open>balance_before\<close> equal to the input balance. When the ids of the
  input list are pairwise distinct these are at most 2 entries, and exactly 2 when the
  instruction has zero violations (status \<open>successful\<close> or \<open>pending\<close>).
\<close>

theorem response_accounts_in_input_order:
  "(accounts (processInstruction today accs instruction) = []
    \<or> (map v_id (accounts (processInstruction today accs instruction))
          = map acc_id
              (filter (\<lambda>a. Some (acc_id a) = debitAccount (parseWithStateMachine (tokenize instruction))
                          \<or> Some (acc_id a) = creditAccount (parseWithStateMachine (tokenize instruction)))
                 accs)
       \<and> map balance_before (accounts (processInstruction today accs instruction))
          = map acc_balance
              (filter (\<lambda>a. Some (acc_id a) = debitAccount (parseWithStateMachine (tokenize instruction))
                          \<or> Some (acc_id a) = creditAccount (parseWithStateMachine (tokenize instruction)))
                 accs)))
   \<and> (distinct (map acc_id accs) \<longrightarrow>
         length (accounts (processInstruction today accs instruction)) \<le> 2)
   \<and> (distinct (map acc_id accs)
        \<and> val_errors (validateBusinessRules (parseWithStateMachine (tokenize instruction)) accs) = []
       \<longrightarrow> length (accounts (processInstruction today accs instruction)) = 2)"
proof -
  let ?p = "parseWithStateMachine (tokenize instruction)"
  let ?es = "val_errors (validateBusinessRules ?p accs)"
  let ?R = "processInstruction today accs instruction"
  let ?inv = "filter (\<lambda>a. Some (acc_id a) = debitAccount ?p \<or> Some (acc_id a) = creditAccount ?p) accs"
  have shape: "accounts ?R = []
      \<or> (map v_id (accounts ?R) = map acc_id ?inv
          \<and> map balance_before (accounts ?R) = map acc_balance ?inv)"
  proof (cases "?es = []")
    case True
    from validated_ok[OF True tokenize_nonempty] obtain d c n where
      fd: "findAccount accs (debitAccount ?p) = Some d"
      and fc: "findAccount accs (creditAccount ?p) = Some c"
      and f: "debitAccount ?p = Some (acc_id d)" "creditAccount ?p = Some (acc_id c)"
      and n: "p_amount ?p = Some n"
      by blast
    note acc = settled_accounts[OF True fd fc n, of today]
    have "map v_id (accounts ?R) = map acc_id ?inv"
      unfolding acc f by (simp add: accountView_def comp_def)
    moreover have "map balance_before (accounts ?R) = map acc_balance ?inv"
      unfolding acc f by (simp add: accountView_def comp_def)
    ultimately show ?thesis by blast
  next
    case False
    from failed_accounts_shape[OF False, of today] show ?thesis
    proof
      assume "accounts ?R = []"
      then show ?thesis by blast
    next
      assume acc: "accounts ?R = involvedAccounts ?p accs"
      have "map v_id (accounts ?R) = map acc_id ?inv"
        unfolding acc by (simp add: involvedAccounts_def accountView_def comp_def)
      moreover have "map balance_before (accounts ?R) = map acc_balance ?inv"
        unfolding acc by (simp add: involvedAccounts_def accountView_def comp_def)
      ultimately show ?thesis by blast
    qed
  qed
  have le: "distinct (map acc_id accs) \<longrightarrow> length (accounts ?R) \<le> 2"
  proof
    assume dist: "distinct (map acc_id accs)"
    from shape show "length (accounts ?R) \<le> 2"
    proof
      assume "accounts ?R = []"
      then show ?thesis by simp
    next
      assume "map v_id (accounts ?R) = map acc_id ?inv
          \<and> map balance_before (accounts ?R) = map acc_balance ?inv"
      then have "length (map v_id (accounts ?R)) = length (map acc_id ?inv)"
        by simp
      then have "length (accounts ?R) = length ?inv"
        by (simp only: length_map)
      with involved_le_2[OF dist] show ?thesis by simp
    qed
  qed
  have two: "distinct (map acc_id accs) \<and> ?es = [] \<longrightarrow> length (accounts ?R) = 2"
  proof
    assume a: "distinct (map acc_id accs) \<and> ?es = []"
    then have dist: "distinct (map acc_id accs)" and ok: "?es = []" by simp_all
    from validated_ok[OF ok tokenize_nonempty] obtain d c n where
      fd: "findAccount accs (debitAccount ?p) = Some d"
      and fc: "findAccount accs (creditAccount ?p) = Some c"
      and f: "d \<in> set accs" "c \<in> set accs" "acc_id d \<noteq> acc_id c"
      and n: "p_amount ?p = Some n"
      by blast
    note acc = settled_accounts[OF ok fd fc n, of today]
    have disj: "\<forall>a. \<not> (acc_id a = acc_id d \<and> acc_id a = acc_id c)" using f(3) by auto
    have "length (accounts ?R)
            = length (filter (\<lambda>a. acc_id a = acc_id d \<or> acc_id a = acc_id c) accs)"
      unfolding acc by (simp only: length_map)
    also have "\<dots> = 2"
      by (simp add: length_filter_disj[OF disj] filter_distinct_key[OF dist f(1)]
            filter_distinct_key[OF dist f(2)])
    finally show "length (accounts ?R) = 2" .
  qed
  from shape le two show ?thesis by blast
qed

theorem response_accounts_in_input_order_witness:
  "distinct (map acc_id
      [\<lparr>acc_id = ''b'', acc_balance = 300, acc_currency = ''USD''\<rparr>,
       \<lparr>acc_id = ''a'', acc_balance = 230, acc_currency = ''USD''\<rparr>,
       \<lparr>acc_id = ''c'', acc_balance = 100, acc_currency = ''USD''\<rparr>])
   \<and> val_errors (validateBusinessRules
        (parseWithStateMachine (tokenize ''DEBIT 30 USD FROM ACCOUNT a FOR CREDIT TO ACCOUNT b''))
        [\<lparr>acc_id = ''b'', acc_balance = 300, acc_currency = ''USD''\<rparr>,
         \<lparr>acc_id = ''a'', acc_balance = 230, acc_currency = ''USD''\<rparr>,
         \<lparr>acc_id = ''c'', acc_balance = 100, acc_currency = ''USD''\<rparr>]) = []
   \<and> length (accounts (processInstruction (2026, 10, 3)
        [\<lparr>acc_id = ''b'', acc_balance = 300, acc_currency = ''USD''\<rparr>,
         \<lparr>acc_id = ''a'', acc_balance = 230, acc_currency = ''USD''\<rparr>,
         \<lparr>acc_id = ''c'', acc_balance = 100, acc_currency = ''USD''\<rparr>]
        ''DEBIT 30 USD FROM ACCOUNT a FOR CREDIT TO ACCOUNT b'')) = 2
   \<and> map v_id (accounts (processInstruction (2026, 10, 3)
        [\<lparr>acc_id = ''b'', acc_balance = 300, acc_currency = ''USD''\<rparr>,
         \<lparr>acc_id = ''a'', acc_balance = 230, acc_currency = ''USD''\<rparr>,
         \<lparr>acc_id = ''c'', acc_balance = 100, acc_currency = ''USD''\<rparr>]
        ''DEBIT 30 USD FROM ACCOUNT a FOR CREDIT TO ACCOUNT b'')) = [''b'', ''a'']"
proof -
  let ?accs = "[\<lparr>acc_id = ''b'', acc_balance = 300, acc_currency = ''USD''\<rparr>,
         \<lparr>acc_id = ''a'', acc_balance = 230, acc_currency = ''USD''\<rparr>,
         \<lparr>acc_id = ''c'', acc_balance = 100, acc_currency = ''USD''\<rparr>]"
  let ?i = "''DEBIT 30 USD FROM ACCOUNT a FOR CREDIT TO ACCOUNT b''"
  have h1: "distinct (map acc_id ?accs)" by simp
  have h2: "val_errors (validateBusinessRules (parseWithStateMachine (tokenize ?i)) ?accs) = []"
    by code_simp
  have h3: "map v_id (accounts (processInstruction (2026, 10, 3) ?accs ?i)) = [''b'', ''a'']"
    by code_simp
  from response_accounts_in_input_order[of "(2026, 10, 3)" ?accs ?i] h1 h2 h3 show ?thesis by blast
qed

section \<open>The blank instruction (C9)\<close>



lemma findAccount_None [simp]: "findAccount accs None = None"
  by (simp add: findAccount_def find_None_iff)





section \<open>The amount slot (C6)\<close>

lemma step_TYPE_invalid:
  assumes "CHR ''.'' \<in> set t \<or> parseInt t = None \<or> (\<exists>n. parseInt t = Some n \<and> n \<le> 0)"
  shows "step TYPE' res t = Next AMOUNT (push res (violation INVALID_AMOUNT MSG_INVALID_AMOUNT))"
  using assms by (auto simp: Let_def split: option.splits)

lemma step_past_amount:
  "step st res t = Next st' res' \<Longrightarrow> st \<noteq> START \<Longrightarrow> st \<noteq> TYPE' \<Longrightarrow>
     st' \<noteq> START \<and> st' \<noteq> TYPE' \<and> p_amount res' = p_amount res
     \<and> (\<exists>ys. errors res' = errors res @ ys)"
  by (cases st) (auto simp: Let_def push_def split: if_splits)

lemma whileLoop_past_amount:
  "st \<noteq> START \<Longrightarrow> st \<noteq> TYPE' \<Longrightarrow>
     p_amount (case whileLoop st res ts of Returned r \<Rightarrow> r | Exhausted s r \<Rightarrow> finish s r)
       = p_amount res
     \<and> (\<exists>ys. errors (case whileLoop st res ts of Returned r \<Rightarrow> r | Exhausted s r \<Rightarrow> finish s r)
               = errors res @ ys)"
proof (induction ts arbitrary: st res)
  case Nil
  then show ?case by (simp add: finish_cases)
next
  case (Cons t ts)
  show ?case
  proof (cases "st = COMPLETE")
    case True
    then show ?thesis by (simp add: finish_cases)
  next
    case False
    show ?thesis
    proof (cases "step st res t")
      case (Return r)
      from step_Return_errors[OF Return] obtain v where "r = push res v" by blast
      with False Return show ?thesis by simp
    next
      case (Next st1 r1)
      from step_past_amount[OF Next Cons.prems] obtain ys where
        s: "st1 \<noteq> START" "st1 \<noteq> TYPE'" "p_amount r1 = p_amount res" "errors r1 = errors res @ ys"
        by blast
      from Cons.IH[OF s(1,2), of r1] obtain zs where
        "p_amount (case whileLoop st1 r1 ts of Returned r \<Rightarrow> r | Exhausted s r \<Rightarrow> finish s r)
           = p_amount r1"
        "errors (case whileLoop st1 r1 ts of Returned r \<Rightarrow> r | Exhausted s r \<Rightarrow> finish s r)
           = errors r1 @ zs"
        by blast
      with s(3,4) False Next show ?thesis by simp
    qed
  qed
qed

lemma priority_le_4:
  "priority c = Some p \<Longrightarrow> p \<le> 4 \<Longrightarrow>
     c = MALFORMED \<or> c = MISSING_KEYWORD \<or> c = INVALID_ORDER \<or> c = INVALID_AMOUNT"
  by (auto simp: priority_def code_defs split: if_splits)

lemma primary_invalid_amount:
  assumes v: "v \<in> set errs" "code v = INVALID_AMOUNT"
    and nosy: "\<forall>x \<in> set errs. code x \<noteq> MALFORMED \<and> code x \<noteq> MISSING_KEYWORD
                                \<and> code x \<noteq> INVALID_ORDER"
  shows "\<exists>e. selectPrimaryError errs = Some e \<and> code e = INVALID_AMOUNT"
proof -
  have pv: "priority (code v) = Some 4" by (simp add: v(2) priority_def code_defs)
  then have pov: "priorityOf v = 4" using priorityOf_mapped by blast
  from v(1) pv have "\<exists>e \<in> set errs. priority (code e) \<noteq> None" by force
  from selectPrimaryError_Some[OF this] obtain pre e post where
    d: "errs = pre @ e # post" "selectPrimaryError errs = Some e" "priority (code e) \<noteq> None"
       "\<forall>x \<in> set pre. priorityOf e < priorityOf x"
       "\<forall>x \<in> set post. priorityOf e \<le> priorityOf x"
    by blast
  from d(1) v(1) have "v \<in> set pre \<or> v = e \<or> v \<in> set post" by auto
  with d(4,5) pov have le: "priorityOf e \<le> 4" by auto
  from d(3) obtain p where p: "priority (code e) = Some p" by auto
  with le have "p \<le> 4" using priorityOf_mapped[OF p] by simp
  from priority_le_4[OF p this] nosy d(1) have "code e = INVALID_AMOUNT" by auto
  with d(2) show ?thesis by blast
qed

text \<open>A minus sign followed by a digit parses to an integer that is not positive.\<close>

lemma parseInt_negative:
  assumes "isDigit d"
  shows "\<exists>n. parseInt (CHR ''-'' # d # ds) = Some n \<and> n \<le> 0"
proof -
  have "\<not> isWhiteSpace (CHR ''-'')" by (simp add: isWhiteSpace_def)
  then show ?thesis using assms by (simp add: parseInt_def Let_def)
qed

text \<open>
  C6: let the first token be \<open>DEBIT\<close> or \<open>CREDIT\<close> in any letter case, and let the
  token in the amount slot contain a \<open>.\<close>, or fail the integer parse, or parse to an
  integer that is not positive. Then the step of the amount slot records an
  \<open>INVALID_AMOUNT\<close> violation (code \<open>AM01\<close>), leaves the amount as it is and moves to
  the next state, so the loop goes on with the remaining tokens; the final parse result has
  a null amount and its first violation is that one. If the rest of the instruction
  records no syntax violation (\<open>SY03\<close>, \<open>SY01\<close>, \<open>SY02\<close>), the response has status
  \<open>failed\<close>, code \<open>AM01\<close> and a null amount.
\<close>

theorem invalid_amount_recorded:
  assumes first: "toUpperCase t0 = ''DEBIT'' \<or> toUpperCase t0 = ''CREDIT''"
    and bad: "CHR ''.'' \<in> set t1 \<or> parseInt t1 = None \<or> (\<exists>n. parseInt t1 = Some n \<and> n \<le> 0)"
  shows "step TYPE' res t1 = Next AMOUNT (push res (violation INVALID_AMOUNT MSG_INVALID_AMOUNT))
    \<and> p_amount (push res (violation INVALID_AMOUNT MSG_INVALID_AMOUNT)) = p_amount res
    \<and> whileLoop START initialResult (t0 # t1 # rest)
        = whileLoop AMOUNT
            (push (initialResult\<lparr>p_type := Some (toUpperCase t0)\<rparr>)
               (violation INVALID_AMOUNT MSG_INVALID_AMOUNT)) rest
    \<and> p_amount (parseWithStateMachine (t0 # t1 # rest)) = None
    \<and> (\<exists>ys. errors (parseWithStateMachine (t0 # t1 # rest))
               = violation INVALID_AMOUNT MSG_INVALID_AMOUNT # ys)
    \<and> code (violation INVALID_AMOUNT MSG_INVALID_AMOUNT) = ''AM01''
    \<and> (tokenize instruction = t0 # t1 # rest
        \<and> (\<forall>v \<in> set (errors (parseWithStateMachine (t0 # t1 # rest))).
              code v \<noteq> ''SY03'' \<and> code v \<noteq> ''SY01'' \<and> code v \<noteq> ''SY02'')
        \<longrightarrow> status (processInstruction today accs instruction) = ''failed''
          \<and> status_code (processInstruction today accs instruction) = ''AM01''
          \<and> r_amount (processInstruction today accs instruction) = None)"
proof -
  let ?v = "violation INVALID_AMOUNT MSG_INVALID_AMOUNT"
  let ?r0 = "initialResult\<lparr>p_type := Some (toUpperCase t0)\<rparr>"
  let ?toks = "t0 # t1 # rest"
  let ?p = "parseWithStateMachine ?toks"
  have s1: "step TYPE' res t1 = Next AMOUNT (push res ?v)" for res
    by (rule step_TYPE_invalid[OF bad])
  have s0: "step START initialResult t0 = Next TYPE' ?r0"
    using first by (simp add: Let_def)
  have loop: "whileLoop START initialResult ?toks = whileLoop AMOUNT (push ?r0 ?v) rest"
    by (simp add: s0 s1 del: step.simps)
  have p: "?p = (case whileLoop AMOUNT (push ?r0 ?v) rest of
                   Returned r \<Rightarrow> r | Exhausted s r \<Rightarrow> finish s r)"
    unfolding parseWithStateMachine_def loop ..
  from whileLoop_past_amount[of AMOUNT "push ?r0 ?v" rest] obtain ys where
    k: "p_amount ?p = p_amount (push ?r0 ?v)" "errors ?p = errors (push ?r0 ?v) @ ys"
    unfolding p by auto
  have am: "p_amount ?p = None" using k(1) by (simp add: initialResult_def)
  have er: "errors ?p = ?v # ys" using k(2) by (simp add: initialResult_def)
  have resp: "tokenize instruction = ?toks
        \<and> (\<forall>v \<in> set (errors ?p). code v \<noteq> ''SY03'' \<and> code v \<noteq> ''SY01'' \<and> code v \<noteq> ''SY02'')
        \<longrightarrow> status (processInstruction today accs instruction) = ''failed''
          \<and> status_code (processInstruction today accs instruction) = ''AM01''
          \<and> r_amount (processInstruction today accs instruction) = None"
  proof
    assume a: "tokenize instruction = ?toks
        \<and> (\<forall>v \<in> set (errors ?p). code v \<noteq> ''SY03'' \<and> code v \<noteq> ''SY01'' \<and> code v \<noteq> ''SY02'')"
    then have t: "tokenize instruction = ?toks" by simp
    let ?es = "val_errors (validateBusinessRules ?p accs)"
    have split: "?es = errors ?p @ drop (length (errors ?p)) ?es"
      by (rule val_errors_append)
    have vin: "?v \<in> set ?es" by (subst split) (simp add: er)
    have nosy: "\<forall>x \<in> set ?es. code x \<noteq> MALFORMED \<and> code x \<noteq> MISSING_KEYWORD
                                \<and> code x \<noteq> INVALID_ORDER"
    proof
      fix x assume "x \<in> set ?es"
      then have "x \<in> set (errors ?p) \<or> x \<in> set (drop (length (errors ?p)) ?es)"
        by (subst (asm) split) (simp only: set_append Un_iff)
      then show "code x \<noteq> MALFORMED \<and> code x \<noteq> MISSING_KEYWORD \<and> code x \<noteq> INVALID_ORDER"
      proof
        assume "x \<in> set (errors ?p)"
        with a show ?thesis by (simp add: code_defs)
      next
        assume "x \<in> set (drop (length (errors ?p)) ?es)"
        from business_codes[OF this] show ?thesis by (auto simp: code_defs)
      qed
    qed
    from primary_invalid_amount[OF vin _ nosy] obtain e where
      e: "selectPrimaryError ?es = Some e" "code e = INVALID_AMOUNT"
      by auto
    from e(1) have e': "selectPrimaryError (val_errors (validateBusinessRules
             (parseWithStateMachine (tokenize instruction)) accs)) = Some e"
      by (simp only: t)
    have ne: "\<not> (code e = MALFORMED \<or> code e = MISSING_KEYWORD \<or> code e = INVALID_ORDER)"
      by (simp add: e(2) code_defs)
    have R: "processInstruction today accs instruction =
       \<lparr>r_type = p_type ?p, r_amount = p_amount ?p, r_currency = p_currency ?p,
        debit_account = debitAccount ?p, credit_account = creditAccount ?p,
        execute_by = executeBy ?p, status = ''failed'', status_reason = message e,
        status_code = code e, accounts = involvedAccounts ?p accs\<rparr>"
      unfolding process_failed[OF e', of today] t using ne by (simp only: if_False)
    show "status (processInstruction today accs instruction) = ''failed''
          \<and> status_code (processInstruction today accs instruction) = ''AM01''
          \<and> r_amount (processInstruction today accs instruction) = None"
      unfolding R by (simp add: e(2) am INVALID_AMOUNT_def)
  qed
  have c: "code ?v = ''AM01''" by (simp add: INVALID_AMOUNT_def)
  have pa: "p_amount (push res ?v) = p_amount res" by simp
  from s1[of res] pa loop am er c resp show ?thesis by blast
qed

theorem invalid_amount_recorded_witness:
  "toUpperCase ''debit'' = ''DEBIT''
   \<and> parseInt ''-100'' = Some (- 100)
   \<and> tokenize ''debit -100 USD FROM ACCOUNT a FOR CREDIT TO ACCOUNT b''
       = [''debit'', ''-100'', ''USD'', ''FROM'', ''ACCOUNT'', ''a'', ''FOR'', ''CREDIT'', ''TO'',
          ''ACCOUNT'', ''b'']
   \<and> p_amount (parseWithStateMachine
        [''debit'', ''-100'', ''USD'', ''FROM'', ''ACCOUNT'', ''a'', ''FOR'', ''CREDIT'', ''TO'',
          ''ACCOUNT'', ''b'']) = None
   \<and> status_code (processInstruction (2026, 10, 3)
        [\<lparr>acc_id = ''a'', acc_balance = 500, acc_currency = ''USD''\<rparr>,
         \<lparr>acc_id = ''b'', acc_balance = 200, acc_currency = ''USD''\<rparr>]
        ''debit -100 USD FROM ACCOUNT a FOR CREDIT TO ACCOUNT b'') = ''AM01''"
proof -
  let ?rest = "[''USD'', ''FROM'', ''ACCOUNT'', ''a'', ''FOR'', ''CREDIT'', ''TO'', ''ACCOUNT'', ''b'']"
  let ?i = "''debit -100 USD FROM ACCOUNT a FOR CREDIT TO ACCOUNT b''"
  have h1: "toUpperCase ''debit'' = ''DEBIT''" by code_simp
  have h2: "parseInt ''-100'' = Some (- 100)" by code_simp
  then have bad: "CHR ''.'' \<in> set ''-100'' \<or> parseInt ''-100'' = None
                   \<or> (\<exists>n. parseInt ''-100'' = Some n \<and> n \<le> 0)"
    by simp
  have h3: "tokenize ?i = ''debit'' # ''-100'' # ?rest" by code_simp
  have h4: "\<forall>v \<in> set (errors (parseWithStateMachine (''debit'' # ''-100'' # ?rest))).
              code v \<noteq> ''SY03'' \<and> code v \<noteq> ''SY01'' \<and> code v \<noteq> ''SY02''"
    by code_simp
  from invalid_amount_recorded[OF disjI1[OF h1] bad, of _ ?rest ?i "(2026, 10, 3)"
            "[\<lparr>acc_id = ''a'', acc_balance = 500, acc_currency = ''USD''\<rparr>,
              \<lparr>acc_id = ''b'', acc_balance = 200, acc_currency = ''USD''\<rparr>]"] h1 h2 h3 h4
  show ?thesis by blast
qed

text \<open>The three examples of the specification: a negative amount, a decimal amount and a
  non-numeric amount.\<close>

lemma invalid_amount_examples:
  "status_code (processInstruction (2026, 10, 3)
        [\<lparr>acc_id = ''a'', acc_balance = 500, acc_currency = ''USD''\<rparr>,
         \<lparr>acc_id = ''b'', acc_balance = 200, acc_currency = ''USD''\<rparr>]
        ''DEBIT -100 USD FROM ACCOUNT a FOR CREDIT TO ACCOUNT b'') = ''AM01''
   \<and> status_code (processInstruction (2026, 10, 3)
        [\<lparr>acc_id = ''a'', acc_balance = 500, acc_currency = ''USD''\<rparr>,
         \<lparr>acc_id = ''b'', acc_balance = 200, acc_currency = ''USD''\<rparr>]
        ''DEBIT 100.50 USD FROM ACCOUNT a FOR CREDIT TO ACCOUNT b'') = ''AM01''
   \<and> status_code (processInstruction (2026, 10, 3)
        [\<lparr>acc_id = ''a'', acc_balance = 500, acc_currency = ''USD''\<rparr>,
         \<lparr>acc_id = ''b'', acc_balance = 200, acc_currency = ''USD''\<rparr>]
        ''DEBIT abc USD FROM ACCOUNT a FOR CREDIT TO ACCOUNT b'') = ''AM01''"
  by code_simp

end
